theory Spec2Isabelle
  imports Complex_Main "HOL-Library.Code_Target_Numeral"
begin

section \<open>JavaScript values\<close>

text \<open>
  The screens are TypeScript over the JavaScript built-ins \<^verbatim>\<open>parseFloat\<close>,
  \<^verbatim>\<open>parseInt\<close>, \<^verbatim>\<open>isNaN\<close>, \<^verbatim>\<open>Intl.NumberFormat\<close> and template
  literals. The built-ins are not code of the repository; they are modelled here after
  ECMA-262 and ECMA-402 so that the handlers can be evaluated on concrete input.

  A string is a list of characters with codes below 256. A Number is \<open>NaN\<close>, an
  infinity, or a finite binary64 value, given by the rational it is equal to. The one
  identification is that of \<open>-0\<close> with \<open>0\<close>, with which it compares equal.
\<close>

datatype js_number = NaN | Finite rat | PosInfinity | NegInfinity

datatype js_error = JsError string

definition isNaN :: "js_number \<Rightarrow> bool" where
  "isNaN x = (case x of NaN \<Rightarrow> True | _ \<Rightarrow> False)"

text \<open>The relational operators \<^verbatim>\<open><\<close> and \<^verbatim>\<open><=\<close> on Numbers; any comparison with NaN is false.\<close>

fun js_less :: "js_number \<Rightarrow> js_number \<Rightarrow> bool" where
  "js_less (Finite x) (Finite y) = (x < y)"
| "js_less (Finite x) PosInfinity = True"
| "js_less NegInfinity (Finite y) = True"
| "js_less NegInfinity PosInfinity = True"
| "js_less _ _ = False"

fun js_less_eq :: "js_number \<Rightarrow> js_number \<Rightarrow> bool" where
  "js_less_eq (Finite x) (Finite y) = (x \<le> y)"
| "js_less_eq (Finite x) PosInfinity = True"
| "js_less_eq NegInfinity (Finite y) = True"
| "js_less_eq NegInfinity PosInfinity = True"
| "js_less_eq NegInfinity NegInfinity = True"
| "js_less_eq PosInfinity PosInfinity = True"
| "js_less_eq _ _ = False"

definition js_negate :: "js_number \<Rightarrow> js_number" where
  "js_negate x =
     (case x of
        NaN \<Rightarrow> NaN
      | Finite v \<Rightarrow> Finite (- v)
      | PosInfinity \<Rightarrow> NegInfinity
      | NegInfinity \<Rightarrow> PosInfinity)"

subsection \<open>Rounding to binary64\<close>

text \<open>
  The Number value of a non-negative fraction \<open>a / b\<close>: the nearest binary64 value,
  a tie going to the even mantissa (IEEE 754 round-to-nearest-even). With
  \<open>e = \<lfloor>log\<^sub>2 (a / b)\<rfloor>\<close> the spacing of the doubles around \<open>a / b\<close> is \<open>2^p\<close> for
  \<open>p = max (e - 52) (-1074)\<close> (the second bound is the spacing of the subnormal
  values); the fraction is rounded to a multiple of that spacing, and a result of
  \<open>2^1024\<close> or more is infinite.
\<close>

function bit_length :: "nat \<Rightarrow> nat" where
  "bit_length n = (if n = 0 then 0 else Suc (bit_length (n div 2)))"
  by pat_completeness auto
termination
  by (relation "measure id") auto

declare bit_length.simps [simp del]

definition floor_log2 :: "nat \<Rightarrow> nat \<Rightarrow> int" where
  "floor_log2 a b =
     (let k = int (bit_length a) - int (bit_length b)
      in if (if 0 \<le> k then b * 2 ^ nat k \<le> a else b \<le> a * 2 ^ nat (- k)) then k
         else k - 1)"

definition round_half_even :: "nat \<Rightarrow> nat \<Rightarrow> nat" where
  "round_half_even num den =
     (let q = num div den; r = num mod den
      in if 2 * r < den then q
         else if den < 2 * r then q + 1
         else if even q then q else q + 1)"

definition binary64 :: "nat \<Rightarrow> nat \<Rightarrow> js_number" where
  "binary64 a b =
     (if a = 0 then Finite 0
      else
        (let p = max (floor_log2 a b - 52) (- 1074);
             m = (if 0 \<le> p then round_half_even a (b * 2 ^ nat p)
                  else round_half_even (a * 2 ^ nat (- p)) b);
             v = (if 0 \<le> p then of_nat m * 2 ^ nat p else of_nat m / 2 ^ nat (- p))
         in if 2 ^ 1024 \<le> v then PosInfinity else Finite v))"

text \<open>
  The Number value of the decimal \<open>sign \<times> n \<times> 10^k\<close>, which is what a numeric
  literal denotes: \<open>n\<close> is the value of its digits and \<open>k\<close> its decimal exponent.
  All digits count. (ECMA-262 lets an implementation replace the digits after the 20th
  significant one by zeros; that freedom is not used here.)
\<close>

definition to_Number :: "rat \<Rightarrow> nat \<Rightarrow> int \<Rightarrow> js_number" where
  "to_Number sign n k =
     (let x = (if 0 \<le> k then binary64 (n * 10 ^ nat k) 1 else binary64 n (10 ^ nat (- k)))
      in if sign < 0 then js_negate x else x)"

subsection \<open>Characters\<close>

definition is_StrWhiteSpaceChar :: "char \<Rightarrow> bool" where
  "is_StrWhiteSpaceChar c =
     (c \<in> set [CHR 0x09, CHR 0x0A, CHR 0x0B, CHR 0x0C, CHR 0x0D, CHR 0x20, CHR 0xA0])"

definition digit_value :: "char \<Rightarrow> nat option" where
  "digit_value c =
     (let n = (of_char c :: nat) in
      if 48 \<le> n \<and> n \<le> 57 then Some (n - 48)
      else if 97 \<le> n \<and> n \<le> 122 then Some (n - 87)
      else if 65 \<le> n \<and> n \<le> 90 then Some (n - 55)
      else None)"

definition is_radix_digit :: "nat \<Rightarrow> char \<Rightarrow> bool" where
  "is_radix_digit R c = (case digit_value c of None \<Rightarrow> False | Some d \<Rightarrow> d < R)"

definition is_DecimalDigit :: "char \<Rightarrow> bool" where
  "is_DecimalDigit c = is_radix_digit 10 c"

definition radix_value :: "nat \<Rightarrow> string \<Rightarrow> nat" where
  "radix_value R Z =
     foldl (\<lambda>acc c. case digit_value c of None \<Rightarrow> acc | Some d \<Rightarrow> acc * R + d) 0 Z"

definition strip_sign :: "string \<Rightarrow> rat \<times> string" where
  "strip_sign S =
     (case S of
        [] \<Rightarrow> (1, S)
      | c # rest \<Rightarrow>
          if c = CHR ''-'' then (- 1, rest)
          else if c = CHR ''+'' then (1, rest)
          else (1, S))"

subsection \<open>parseInt with no radix argument\<close>

text \<open>
  ECMA-262 \<^verbatim>\<open>parseInt(string)\<close>: trim leading white space, take a sign, switch to radix
  16 after a \<^verbatim>\<open>0x\<close> or \<^verbatim>\<open>0X\<close> prefix (radix 10 otherwise), read the longest run
  of digits of that radix; no digit gives NaN. Whatever follows the digits is ignored.
\<close>

definition parseInt :: "string \<Rightarrow> js_number" where
  "parseInt string =
     (let S = dropWhile is_StrWhiteSpaceChar string;
          (sign, S1) = strip_sign S;
          (R, S2) = (if take 2 S1 = ''0x'' \<or> take 2 S1 = ''0X''
                     then (16, drop 2 S1) else (10, S1));
          Z = takeWhile (is_radix_digit R) S2
      in if Z = [] then NaN else to_Number sign (radix_value R Z) 0)"

subsection \<open>parseFloat\<close>

text \<open>
  ECMA-262 \<^verbatim>\<open>parseFloat(string)\<close>: trim leading white space and take the longest
  prefix that is a \<^verbatim>\<open>StrDecimalLiteral\<close>: a sign, then \<^verbatim>\<open>Infinity\<close> or decimal
  digits with an optional fraction and an optional exponent (an exponent counts only
  when it has a digit). No such prefix gives NaN. Whatever follows is ignored.
\<close>

definition exponent_part :: "string \<Rightarrow> int" where
  "exponent_part S =
     (case S of
        [] \<Rightarrow> 0
      | c # rest \<Rightarrow>
          if c = CHR ''e'' \<or> c = CHR ''E'' then
            (let (sign, rest1) = strip_sign rest;
                 ds = takeWhile is_DecimalDigit rest1
             in if ds = [] then 0
                else if sign < 0 then - int (radix_value 10 ds)
                else int (radix_value 10 ds))
          else 0)"

text \<open>
  The digits before the point, the digits after it, and what follows them (where an
  exponent may stand).
\<close>

definition decimal_parts :: "string \<Rightarrow> string \<times> string \<times> string" where
  "decimal_parts U =
     (let ip = takeWhile is_DecimalDigit U;
          r1 = dropWhile is_DecimalDigit U
      in case r1 of
           [] \<Rightarrow> (ip, [], r1)
         | c # rest \<Rightarrow>
             if c = CHR ''.''
             then (ip, takeWhile is_DecimalDigit rest, dropWhile is_DecimalDigit rest)
             else (ip, [], r1))"

definition parseFloat :: "string \<Rightarrow> js_number" where
  "parseFloat string =
     (let S = dropWhile is_StrWhiteSpaceChar string;
          (sign, U) = strip_sign S
      in if take 8 U = ''Infinity'' then (if sign < 0 then NegInfinity else PosInfinity)
         else
           (let (ip, fp, r2) = decimal_parts U
            in if ip = [] \<and> fp = [] then NaN
               else to_Number sign (radix_value 10 (ip @ fp))
                      (exponent_part r2 - int (length fp))))"

subsection \<open>Numbers to text\<close>

definition digit_char :: "nat \<Rightarrow> char" where
  "digit_char d = ''0123456789'' ! (d mod 10)"

function show_nat :: "nat \<Rightarrow> string" where
  "show_nat n = (if n < 10 then [digit_char n] else show_nat (n div 10) @ [digit_char (n mod 10)])"
  by pat_completeness auto
termination
  by (relation "measure id") auto

declare show_nat.simps [simp del]

text \<open>
  An integer inside a template literal, \<^verbatim>\<open>`${n}`\<close>. The digits are those of the
  integer itself, which is what JavaScript prints for a safe integer (magnitude below
  \<open>2^53\<close>); beyond that JavaScript prints the shortest digits that identify the
  double and, from \<open>10^21\<close>, an exponent, which is not modelled.
\<close>

definition is_safe_integer :: "int \<Rightarrow> bool" where
  "is_safe_integer n = (\<bar>n\<bar> < 2 ^ 53)"

definition show_int :: "int \<Rightarrow> string" where
  "show_int n = (if n < 0 then CHR ''-'' # show_nat (nat (- n)) else show_nat (nat n))"

text \<open>
  \<^verbatim>\<open>new Intl.NumberFormat('en-US', { style: 'currency', currency: 'USD' }).format(price)\<close>,
  which \<open>Home\<close>, \<open>ProductDetail\<close> and \<open>AdminOrders\<close> each wrap in an identical
  \<open>formatPrice\<close>. For the locale en-US and the currency USD the pattern is a minus sign
  for a negative value, the dollar sign, the integer digits in groups of three separated
  by commas, a point and exactly two fraction digits, rounded half away from zero
  (the default rounding mode \<^verbatim>\<open>halfExpand\<close>). The argument is a finite Number,
  rounded here as the rational it is equal to. The platform rounds the shortest decimal
  digits that identify the double, which gives another last digit for a double that
  lies just below a tie (1.005 is printed as \<open>$1.01\<close>), and it prints \<open>-0\<close> as
  \<open>-$0.00\<close>; neither is modelled.
\<close>

fun group_rev :: "string \<Rightarrow> string" where
  "group_rev (a # b # c # d # rest) = a # b # c # CHR '','' # group_rev (d # rest)"
| "group_rev ds = ds"

definition group3 :: "string \<Rightarrow> string" where
  "group3 ds = rev (group_rev (rev ds))"

definition formatPrice :: "rat \<Rightarrow> string" where
  "formatPrice price =
     (let cents = nat \<lfloor>\<bar>price\<bar> * 100 + 1 / 2\<rfloor>
      in (if price < 0 then ''-'' else '''') @ ''$'' @ group3 (show_nat (cents div 100)) @ ''.''
         @ [digit_char (cents mod 100 div 10), digit_char (cents mod 10)])"

section \<open>Entities\<close>

text \<open>
  Modelled from the spec: the module \<^verbatim>\<open>types\<close> (Product, Order, OrderItem, OrderStatus,
  KeyboardLayout) is not among the sources. The records below follow the data model of
  the specification and the fields the screens read. Counts and ids are integers,
  prices are finite Numbers (a JSON response carries neither NaN nor an infinity), a
  keyboard layout is the string of its enumeration value, and an absent image URL is
  the empty string.

  The admin form keeps the same fields as text (\<open>formData\<close>) and sends them with two
  of them turned into Numbers (\<open>productData\<close>), so the fields are one record with the
  types of \<open>price\<close> and \<open>stockQuantity\<close> left open.
\<close>

record ('p, 'q) product_fields =
  name :: string
  description :: string
  price :: 'p
  brand :: string
  layout :: string
  switchType :: string
  keycapMaterial :: string
  caseMaterial :: string
  rgbSupport :: bool
  wirelessSupport :: bool
  stockQuantity :: 'q
  imageUrl :: string

record Product = "(rat, int) product_fields" +
  product_id :: int

type_synonym formData = "(string, string) product_fields"

type_synonym productData = "(js_number, js_number) product_fields"

datatype OrderStatus = PENDING | CONFIRMED | SHIPPED | DELIVERED | CANCELLED

record OrderItem =
  product :: Product
  item_quantity :: int

record Order =
  order_id :: int
  userId :: int
  items :: "OrderItem list"
  totalAmount :: rat
  status :: OrderStatus
  createdAt :: string

record CartRequest =
  productId :: int
  quantity :: int

section \<open>Effects\<close>

text \<open>
  A handler is a function from the state it can see to the state it leaves, together
  with the list of what it did to the outside, in order: calls of the API client and of
  the cart holder, navigation, console output, timers. An \<^verbatim>\<open>await\<close> is sequencing;
  a rejected promise is \<open>Inl\<close>. The API client, the backend behind it and the cart
  holder are not among the sources: they are parameters, functions from the backend's
  (or the cart's) state to a result and a new state.
\<close>

datatype event =
    PreventDefault
  | Navigate string
  | ConsoleError string js_error
  | Call_getAllOrders
  | Call_updateOrderStatus int OrderStatus
  | Call_createProduct productData
  | Call_addToCart CartRequest
  | SetTimeout event nat

record 'b apiService =
  getAllOrders :: "'b \<Rightarrow> (js_error + Order list) \<times> 'b"
  updateOrderStatus :: "int \<Rightarrow> OrderStatus \<Rightarrow> 'b \<Rightarrow> (js_error + unit) \<times> 'b"
  createProduct :: "productData \<Rightarrow> 'b \<Rightarrow> (js_error + unit) \<times> 'b"

type_synonym 'c addToCart = "CartRequest \<Rightarrow> 'c \<Rightarrow> (js_error + unit) \<times> 'c"

definition is_api_call :: "event \<Rightarrow> bool" where
  "is_api_call e =
     (case e of
        Call_getAllOrders \<Rightarrow> True
      | Call_updateOrderStatus _ _ \<Rightarrow> True
      | Call_createProduct _ \<Rightarrow> True
      | _ \<Rightarrow> False)"

definition api_calls :: "event list \<Rightarrow> event list" where
  "api_calls evs = filter is_api_call evs"

definition is_cart_call :: "event \<Rightarrow> bool" where
  "is_cart_call e = (case e of Call_addToCart _ \<Rightarrow> True | _ \<Rightarrow> False)"

text \<open>Truthiness of a \<^verbatim>\<open>string | null\<close>: null and the empty string are falsy.\<close>

definition truthy :: "string option \<Rightarrow> bool" where
  "truthy v = (case v of None \<Rightarrow> False | Some s \<Rightarrow> s \<noteq> [])"

text \<open>The state every screen keeps for its fetch: \<^verbatim>\<open>loading\<close> and \<^verbatim>\<open>error\<close>.\<close>

record fetch_state =
  loading :: bool
  error :: "string option"

section \<open>What a screen renders\<close>

text \<open>
  The elements of a rendered screen, in document order. \<open>Alert severity text\<close>,
  \<open>Chip label color\<close> (\<open>default\<close> where the source gives no colour),
  \<open>Typography text color\<close> (empty where the source gives none),
  \<open>Button label disabled\<close>, \<open>Img src alt\<close>.
\<close>

datatype node =
    CircularProgress
  | Alert string string
  | Chip string string
  | Typography string string
  | Button string bool
  | Img string string
  | Rating
  | Star

text \<open>\<^verbatim>\<open>s.replace('_', ' ')\<close>: a string pattern replaces the first occurrence only.\<close>

fun replace_first :: "char \<Rightarrow> char \<Rightarrow> string \<Rightarrow> string" where
  "replace_first a b [] = []"
| "replace_first a b (c # cs) = (if c = a then b # cs else c # replace_first a b cs)"

definition stock_chip_color :: "int \<Rightarrow> string" where
  "stock_chip_color stock = (if stock > 0 then ''success'' else ''error'')"

definition add_to_cart_button :: "int \<Rightarrow> node" where
  "add_to_cart_button stock =
     Button (if stock = 0 then ''Out of Stock'' else ''Add to Cart'') (stock = 0)"

section \<open>Home\<close>

text \<open>The card of one featured product (\<^verbatim>\<open>CardMedia\<close> and \<^verbatim>\<open>CardContent\<close>).\<close>

definition Home_card :: "bool \<Rightarrow> Product \<Rightarrow> node list" where
  "Home_card isAdmin p =
     [Img (if imageUrl p \<noteq> [] then imageUrl p
           else ''https://via.placeholder.com/300x200?text=Keyboard'') (name p),
      Typography (name p) [],
      Typography (take 100 (description p) @ ''...'') ''text.secondary'',
      Chip (brand p) ''default'',
      Chip (replace_first CHR ''_'' CHR '' '' (layout p)) ''default'']
     @ (if rgbSupport p then [Chip ''RGB'' ''secondary''] else [])
     @ [Typography (formatPrice (price p)) ''primary'']
     @ (if \<not> isAdmin then [Star, Typography ''4.5'' []] else [])
     @ [Chip (if stockQuantity p > 0
              then ''In Stock ('' @ show_int (stockQuantity p) @ '')''
              else ''Out of Stock'')
             (stock_chip_color (stockQuantity p))]
     @ (if isAdmin
        then [Chip (''Stock: '' @ show_int (stockQuantity p)) (stock_chip_color (stockQuantity p)),
              Button ''Manage Product'' False]
        else [add_to_cart_button (stockQuantity p)])"

definition Home_handleAddToCart ::
  "bool \<Rightarrow> 'c addToCart \<Rightarrow> int \<Rightarrow> 'c \<Rightarrow> 'c \<times> event list" where
  "Home_handleAddToCart isAuthenticated addToCart pid cart =
     (if \<not> isAuthenticated then (cart, [Navigate ''/login''])
      else
        (let req = \<lparr>productId = pid, quantity = 1\<rparr> in
         case addToCart req cart of
           (Inr _, cart') \<Rightarrow> (cart', [Call_addToCart req])
         | (Inl err, cart') \<Rightarrow>
             (cart', [Call_addToCart req, ConsoleError ''Error adding to cart:'' err])))"

section \<open>ProductDetail\<close>

text \<open>\<^verbatim>\<open>error || 'Product not found'\<close>.\<close>

definition or_else :: "string option \<Rightarrow> string \<Rightarrow> string" where
  "or_else v d = (case v of None \<Rightarrow> d | Some s \<Rightarrow> if s \<noteq> [] then s else d)"

subsection \<open>The quantity stepper\<close>

text \<open>
  The product detail screen keeps a local counter \<open>quantity\<close>, created by
  \<^verbatim>\<open>useState(1)\<close>. Two buttons change it:
  \<^verbatim>\<open>onClick={() => setQuantity(Math.max(1, quantity - 1))} disabled={quantity <= 1}\<close> and
  \<^verbatim>\<open>onClick={() => setQuantity(quantity + 1)} disabled={quantity >= product.stockQuantity}\<close>.
  A disabled button does not run its handler. Counts are integers.
\<close>

definition initial_quantity :: int where
  "initial_quantity = 1"

definition decrement_onClick :: "int \<Rightarrow> int" where
  "decrement_onClick qty = max 1 (qty - 1)"

definition decrement_disabled :: "int \<Rightarrow> bool" where
  "decrement_disabled qty = (qty \<le> 1)"

definition increment_onClick :: "int \<Rightarrow> int" where
  "increment_onClick qty = qty + 1"

definition increment_disabled :: "int \<Rightarrow> int \<Rightarrow> bool" where
  "increment_disabled stock qty = (qty \<ge> stock)"

datatype stepper_action = ClickDecrement | ClickIncrement

fun click :: "int \<Rightarrow> int \<Rightarrow> stepper_action \<Rightarrow> int" where
  "click stock qty ClickDecrement =
     (if decrement_disabled qty then qty else decrement_onClick qty)"
| "click stock qty ClickIncrement =
     (if increment_disabled stock qty then qty
      else increment_onClick qty)"

definition stepper :: "int \<Rightarrow> stepper_action list \<Rightarrow> int" where
  "stepper stock actions = foldl (click stock) initial_quantity actions"

subsection \<open>The page\<close>

text \<open>The page of a loaded product, for the current value of the quantity counter.\<close>

definition ProductDetail_page :: "Product \<Rightarrow> int \<Rightarrow> node list" where
  "ProductDetail_page p qty =
     [Button ''Back to Products'' False,
      Img (if imageUrl p \<noteq> [] then imageUrl p
           else ''https://via.placeholder.com/600x400?text=Keyboard'') (name p),
      Typography (name p) [],
      Rating,
      Typography ''(4.5) - 128 reviews'' [],
      Typography (formatPrice (price p)) ''primary'',
      Chip (if stockQuantity p > 0
            then ''In Stock ('' @ show_int (stockQuantity p) @ '' available)''
            else ''Out of Stock'')
           (stock_chip_color (stockQuantity p))]
     @ (if stockQuantity p = 0
        then [Alert ''error''
                (''This product is currently out of stock. Please check back later ''
                 @ ''or contact us for availability updates.'')]
        else [])
     @ (if stockQuantity p > 0 \<and> stockQuantity p \<le> 5
        then [Alert ''warning''
                (''Only '' @ show_int (stockQuantity p)
                 @ '' left in stock! Order soon to avoid disappointment.'')]
        else [])
     @ [Typography (description p) [],
        Typography ''Features'' [],
        Chip (brand p) ''primary'',
        Chip (replace_first CHR ''_'' CHR '' '' (layout p)) ''default'',
        Chip (switchType p) ''default'']
     @ (if rgbSupport p then [Chip ''RGB'' ''secondary''] else [])
     @ (if wirelessSupport p then [Chip ''Wireless'' ''secondary''] else [])
     @ [Typography ''Specifications'' [],
        Typography ''Switch Type'' ''text.secondary'',
        Typography (switchType p) [],
        Typography ''Keycap Material'' ''text.secondary'',
        Typography (keycapMaterial p) [],
        Typography ''Case Material'' ''text.secondary'',
        Typography (caseMaterial p) [],
        Typography ''Stock Quantity'' ''text.secondary'',
        Typography (show_int (stockQuantity p)) [],
        Typography ''Quantity'' [],
        Button ''-'' (decrement_disabled qty),
        Typography (show_int qty) [],
        Button ''+'' (increment_disabled (stockQuantity p) qty),
        add_to_cart_button (stockQuantity p)]
     @ (if stockQuantity p = 0
        then [Typography ''This product is currently out of stock'' ''error'']
        else [])"

definition ProductDetail_render ::
  "bool \<Rightarrow> string option \<Rightarrow> Product option \<Rightarrow> int \<Rightarrow> node list" where
  "ProductDetail_render is_loading err loaded qty =
     (if is_loading then [CircularProgress]
      else
        (case loaded of
           None \<Rightarrow> [Alert ''error'' (or_else err ''Product not found'')]
         | Some p \<Rightarrow>
             if truthy err then [Alert ''error'' (or_else err ''Product not found'')]
             else ProductDetail_page p qty))"

definition ProductDetail_handleAddToCart ::
  "bool \<Rightarrow> 'c addToCart \<Rightarrow> Product option \<Rightarrow> int \<Rightarrow> 'c \<Rightarrow> 'c \<times> event list" where
  "ProductDetail_handleAddToCart isAuthenticated addToCart loaded qty cart =
     (if \<not> isAuthenticated then (cart, [Navigate ''/login''])
      else
        (case loaded of
           None \<Rightarrow> (cart, [])
         | Some p \<Rightarrow>
             (let req = \<lparr>productId = product_id p, quantity = qty\<rparr> in
              case addToCart req cart of
                (Inr _, cart') \<Rightarrow> (cart', [Call_addToCart req])
              | (Inl e, cart') \<Rightarrow>
                  (cart', [Call_addToCart req, ConsoleError ''Error adding to cart:'' e]))))"

subsection \<open>Stock warnings\<close>

text \<open>
  A low-stock warning is an element of severity or colour \<open>warning\<close>; an out-of-stock
  warning is an element of severity or colour \<open>error\<close>.
\<close>

definition is_low_stock_warning :: "node \<Rightarrow> bool" where
  "is_low_stock_warning n =
     (case n of
        Alert severity _ \<Rightarrow> severity = ''warning''
      | Chip _ color \<Rightarrow> color = ''warning''
      | Typography _ color \<Rightarrow> color = ''warning''
      | _ \<Rightarrow> False)"

definition is_out_of_stock_warning :: "node \<Rightarrow> bool" where
  "is_out_of_stock_warning n =
     (case n of
        Alert severity _ \<Rightarrow> severity = ''error''
      | Chip _ color \<Rightarrow> color = ''error''
      | Typography _ color \<Rightarrow> color = ''error''
      | _ \<Rightarrow> False)"

text \<open>The chips that tell the stock status are the green and the red ones.\<close>

definition is_stock_chip :: "node \<Rightarrow> bool" where
  "is_stock_chip n =
     (case n of Chip _ color \<Rightarrow> color = ''success'' \<or> color = ''error'' | _ \<Rightarrow> False)"

definition stock_chips :: "node list \<Rightarrow> node list" where
  "stock_chips nodes = filter is_stock_chip nodes"

definition low_stock_warnings :: "node list \<Rightarrow> node list" where
  "low_stock_warnings nodes = filter is_low_stock_warning nodes"

definition out_of_stock_warnings :: "node list \<Rightarrow> node list" where
  "out_of_stock_warnings nodes = filter is_out_of_stock_warning nodes"

section \<open>AdminOrders\<close>

record AdminOrders = fetch_state +
  orders :: "Order list"
  statusDialogOpen :: bool
  selectedOrder :: "Order option"
  newStatus :: OrderStatus

definition AdminOrders_initial :: AdminOrders where
  "AdminOrders_initial =
     \<lparr>loading = True, error = None, orders = [], statusDialogOpen = False,
      selectedOrder = None, newStatus = PENDING\<rparr>"

text \<open>
  \<open>fetchOrders\<close> catches the failure of its own call, so it never rejects.
\<close>

definition fetchOrders ::
  "'b apiService \<Rightarrow> AdminOrders \<Rightarrow> 'b \<Rightarrow> AdminOrders \<times> 'b \<times> event list" where
  "fetchOrders api s b =
     (let s1 = s\<lparr>loading := True\<rparr> in
      case getAllOrders api b of
        (Inr data, b') \<Rightarrow>
          (s1\<lparr>orders := data, error := None, loading := False\<rparr>, b', [Call_getAllOrders])
      | (Inl err, b') \<Rightarrow>
          (s1\<lparr>error := Some ''Failed to load orders'', loading := False\<rparr>, b',
           [Call_getAllOrders, ConsoleError ''Error fetching orders:'' err]))"

definition handleStatusUpdate :: "Order \<Rightarrow> AdminOrders \<Rightarrow> AdminOrders" where
  "handleStatusUpdate order s =
     s\<lparr>selectedOrder := Some order, newStatus := status order, statusDialogOpen := True\<rparr>"

definition handleStatusSubmit ::
  "'b apiService \<Rightarrow> AdminOrders \<Rightarrow> 'b \<Rightarrow> AdminOrders \<times> 'b \<times> event list" where
  "handleStatusSubmit api s b =
     (case selectedOrder s of
        None \<Rightarrow> (s, b, [])
      | Some sel \<Rightarrow>
          (case updateOrderStatus api (order_id sel) (newStatus s) b of
             (Inr _, b1) \<Rightarrow>
               (case fetchOrders api s b1 of
                  (s2, b2, evs) \<Rightarrow>
                    (s2\<lparr>statusDialogOpen := False, selectedOrder := None\<rparr>, b2,
                     Call_updateOrderStatus (order_id sel) (newStatus s) # evs))
           | (Inl err, b1) \<Rightarrow>
               (s\<lparr>error := Some ''Failed to update order status''\<rparr>, b1,
                [Call_updateOrderStatus (order_id sel) (newStatus s),
                 ConsoleError ''Error updating order status:'' err])))"

text \<open>
  What the screen shows of \<open>error\<close> and of the dialog: while \<open>loading\<close> only the
  progress indicator is rendered; otherwise the banner \<^verbatim>\<open>{error && <Alert ...>}\<close> and
  the dialog with \<^verbatim>\<open>open={statusDialogOpen}\<close>.
\<close>

definition AdminOrders_banner :: "AdminOrders \<Rightarrow> node list" where
  "AdminOrders_banner s =
     (if loading s then [CircularProgress]
      else if truthy (error s) then [Alert ''error'' (or_else (error s) [])] else [])"

section \<open>AdminProductForm\<close>

record AdminProductForm = fetch_state +
  success :: "string option"
  keyboardLayouts :: "string list"
  formData :: formData

definition AdminProductForm_initial :: AdminProductForm where
  "AdminProductForm_initial =
     \<lparr>loading = False, error = None, success = None, keyboardLayouts = [],
      formData =
        \<lparr>name = [], description = [], price = [], brand = [], layout = ''FULL_SIZE'',
         switchType = [], keycapMaterial = [], caseMaterial = [], rgbSupport = False,
         wirelessSupport = False, stockQuantity = [], imageUrl = []\<rparr>\<rparr>"

text \<open>
  The two banners above the form: \<^verbatim>\<open>{error && <Alert severity="error">}\<close> and
  \<^verbatim>\<open>{success && <Alert severity="success">}\<close>.
\<close>

definition AdminProductForm_alerts :: "AdminProductForm \<Rightarrow> node list" where
  "AdminProductForm_alerts s =
     (if truthy (error s) then [Alert ''error'' (or_else (error s) [])] else [])
     @ (if truthy (success s) then [Alert ''success'' (or_else (success s) [])] else [])"

text \<open>
  \<^verbatim>\<open>{...formData, price: parseFloat(formData.price), stockQuantity: parseInt(formData.stockQuantity)}\<close>
\<close>

definition to_productData :: "formData \<Rightarrow> productData" where
  "to_productData f =
     \<lparr>name = name f, description = description f, price = parseFloat (price f),
      brand = brand f, layout = layout f, switchType = switchType f,
      keycapMaterial = keycapMaterial f, caseMaterial = caseMaterial f,
      rgbSupport = rgbSupport f, wirelessSupport = wirelessSupport f,
      stockQuantity = parseInt (stockQuantity f), imageUrl = imageUrl f\<rparr>"

definition handleSubmit ::
  "'b apiService \<Rightarrow> AdminProductForm \<Rightarrow> 'b \<Rightarrow> AdminProductForm \<times> 'b \<times> event list" where
  "handleSubmit api s b =
     (let f = formData s in
      if name f = [] \<or> description f = [] \<or> price f = [] \<or> brand f = []
         \<or> stockQuantity f = []
      then (s\<lparr>error := Some ''Please fill in all required fields''\<rparr>, b, [PreventDefault])
      else if isNaN (parseFloat (price f)) \<or> js_less_eq (parseFloat (price f)) (Finite 0)
      then (s\<lparr>error := Some ''Please enter a valid price''\<rparr>, b, [PreventDefault])
      else if isNaN (parseInt (stockQuantity f)) \<or> js_less (parseInt (stockQuantity f)) (Finite 0)
      then (s\<lparr>error := Some ''Please enter a valid stock quantity''\<rparr>, b, [PreventDefault])
      else
        (let s1 = s\<lparr>loading := True, error := None\<rparr>;
             productData = to_productData f
         in case createProduct api productData b of
              (Inr _, b') \<Rightarrow>
                (s1\<lparr>success := Some ''Product created successfully'', loading := False\<rparr>, b',
                 [PreventDefault, Call_createProduct productData,
                  SetTimeout (Navigate ''/admin/products'') 1500])
            | (Inl err, b') \<Rightarrow>
                (s1\<lparr>error := Some ''Failed to create product'', loading := False\<rparr>, b',
                 [PreventDefault, Call_createProduct productData,
                  ConsoleError ''Error creating product:'' err])))"

subsection \<open>Numerals as text\<close>

text \<open>
  A text that is, as a whole, a decimal numeral: an optional sign, then digits with an
  optional point and fraction (or a point and fraction alone), then an optional
  exponent with at least one digit. And a text that is, as a whole, an integer numeral:
  an optional sign, then decimal digits, or \<^verbatim>\<open>0x\<close> and hexadecimal digits.
\<close>

definition exponent_text :: "string \<Rightarrow> bool" where
  "exponent_text S =
     (case S of
        [] \<Rightarrow> False
      | c # rest \<Rightarrow>
          (c = CHR ''e'' \<or> c = CHR ''E'')
          \<and> snd (strip_sign rest) \<noteq> [] \<and> list_all is_DecimalDigit (snd (strip_sign rest)))"

definition is_number_text :: "string \<Rightarrow> bool" where
  "is_number_text str =
     (case decimal_parts (snd (strip_sign str)) of
        (ip, fp, r2) \<Rightarrow> (ip \<noteq> [] \<or> fp \<noteq> []) \<and> (r2 = [] \<or> exponent_text r2))"

definition hex_prefixed :: "string \<Rightarrow> bool" where
  "hex_prefixed S = (take 2 S = ''0x'' \<or> take 2 S = ''0X'')"

definition is_integer_text :: "string \<Rightarrow> bool" where
  "is_integer_text str =
     (let S1 = snd (strip_sign str)
      in if hex_prefixed S1
         then drop 2 S1 \<noteq> [] \<and> list_all (is_radix_digit 16) (drop 2 S1)
         else S1 \<noteq> [] \<and> list_all is_DecimalDigit S1)"

text \<open>
  Text after a numeral that cannot make it longer. After a decimal numeral: not a digit;
  unless the numeral has an exponent already, not the start of an exponent and, unless
  the numeral has a point already, not a point. After an integer numeral: not a digit of
  its radix, and not the \<^verbatim>\<open>x\<close> that would turn a lone \<^verbatim>\<open>0\<close> into a hexadecimal
  prefix.
\<close>

definition has_exponent :: "string \<Rightarrow> bool" where
  "has_exponent lit = (CHR ''e'' \<in> set lit \<or> CHR ''E'' \<in> set lit)"

definition exponent_start :: "string \<Rightarrow> bool" where
  "exponent_start rest =
     (case rest of
        [] \<Rightarrow> False
      | c # r \<Rightarrow>
          (c = CHR ''e'' \<or> c = CHR ''E'')
          \<and> takeWhile is_DecimalDigit (snd (strip_sign r)) \<noteq> [])"

definition float_stops :: "string \<Rightarrow> string \<Rightarrow> bool" where
  "float_stops lit rest =
     (case rest of
        [] \<Rightarrow> True
      | c # _ \<Rightarrow>
          \<not> is_DecimalDigit c
          \<and> (has_exponent lit
              \<or> (\<not> exponent_start rest \<and> (CHR ''.'' \<in> set lit \<or> c \<noteq> CHR ''.''))))"

definition int_stops :: "string \<Rightarrow> string \<Rightarrow> bool" where
  "int_stops lit rest =
     (case rest of
        [] \<Rightarrow> True
      | c # _ \<Rightarrow>
          if hex_prefixed (snd (strip_sign lit)) then \<not> is_radix_digit 16 c
          else \<not> is_DecimalDigit c
               \<and> \<not> (snd (strip_sign lit) = ''0'' \<and> (c = CHR ''x'' \<or> c = CHR ''X'')))"

text \<open>
  A numeral at the start of a text, as \<open>parseFloat\<close> and as \<open>parseInt\<close> take it: the
  text is \<open>lit @ rest\<close>, where \<open>lit\<close> is a numeral that \<open>rest\<close> cannot make longer.
  For \<open>parseFloat\<close> a signed \<^verbatim>\<open>Infinity\<close> counts as well, whatever follows it.
\<close>

definition is_infinity_text :: "string \<Rightarrow> bool" where
  "is_infinity_text lit = (snd (strip_sign lit) = ''Infinity'')"

definition float_prefix :: "string \<Rightarrow> string \<Rightarrow> bool" where
  "float_prefix lit rest =
     (is_infinity_text lit \<or> (is_number_text lit \<and> float_stops lit rest))"

definition int_prefix :: "string \<Rightarrow> string \<Rightarrow> bool" where
  "int_prefix lit rest = (is_integer_text lit \<and> int_stops lit rest)"

definition trim :: "string \<Rightarrow> string" where
  "trim str = rev (dropWhile is_StrWhiteSpaceChar (rev (dropWhile is_StrWhiteSpaceChar str)))"

subsection \<open>What the form validation is said to check\<close>

text \<open>
  The words of the specification for a form that must be rejected: a required field is
  empty, or the price does not parse as a number greater than 0, or the stock quantity
  does not parse as an integer that is at least 0. Read plainly, a text parses as a
  number when the text (white space around it aside) is a numeral.
\<close>

definition required_field_empty :: "formData \<Rightarrow> bool" where
  "required_field_empty f =
     (name f = [] \<or> description f = [] \<or> price f = [] \<or> brand f = []
      \<or> stockQuantity f = [])"

definition is_number_above_0 :: "string \<Rightarrow> bool" where
  "is_number_above_0 str = (is_number_text (trim str) \<and> js_less (Finite 0) (parseFloat str))"

definition is_integer_at_least_0 :: "string \<Rightarrow> bool" where
  "is_integer_at_least_0 str =
     (is_integer_text (trim str) \<and> js_less_eq (Finite 0) (parseInt str))"

definition stated_rejected_form :: "formData \<Rightarrow> bool" where
  "stated_rejected_form f =
     (required_field_empty f \<or> \<not> is_number_above_0 (price f)
      \<or> \<not> is_integer_at_least_0 (stockQuantity f))"

subsection \<open>What the form validation checks\<close>

text \<open>
  The reading under which the handler rejects exactly the forms described: the price
  is read by \<open>parseFloat\<close> and the stock quantity by \<open>parseInt\<close>, which take the
  longest numeral at the start of the text and ignore what follows it. A form is
  rejected when a required field is empty, or what is read from the price is not a
  number greater than 0, or what is read from the stock quantity is not an integer that
  is at least 0.
\<close>

definition reads_number_above_0 :: "string \<Rightarrow> bool" where
  "reads_number_above_0 str =
     (case parseFloat str of
        NaN \<Rightarrow> False
      | Finite v \<Rightarrow> 0 < v
      | PosInfinity \<Rightarrow> True
      | NegInfinity \<Rightarrow> False)"

definition reads_integer_at_least_0 :: "string \<Rightarrow> bool" where
  "reads_integer_at_least_0 str =
     (case parseInt str of
        NaN \<Rightarrow> False
      | Finite v \<Rightarrow> 0 \<le> v
      | PosInfinity \<Rightarrow> True
      | NegInfinity \<Rightarrow> False)"

definition rejected_form :: "formData \<Rightarrow> bool" where
  "rejected_form f =
     (required_field_empty f \<or> \<not> reads_number_above_0 (price f)
      \<or> \<not> reads_integer_at_least_0 (stockQuantity f))"

section \<open>Concrete inputs\<close>

text \<open>
  A product, an order, a backend that rejects every call, a backend that keeps the list
  of orders and accepts every call, the orders screen with the status dialog open on
  the order and the status SHIPPED chosen, and the product form with its required text
  fields filled and a given price and stock text.
\<close>

definition sample_product :: "int \<Rightarrow> Product" where
  "sample_product stock =
     \<lparr>name = ''Keychron K2'', description = ''A compact wireless keyboard'', price = 179 / 2,
      brand = ''Keychron'', layout = ''SEVENTY_FIVE_PERCENT'', switchType = ''Gateron Brown'',
      keycapMaterial = ''ABS'', caseMaterial = ''Aluminum'', rgbSupport = True,
      wirelessSupport = True, stockQuantity = stock, imageUrl = [], product_id = 7\<rparr>"

definition sample_order :: Order where
  "sample_order =
     \<lparr>order_id = 42, userId = 5,
      items = [\<lparr>product = sample_product 3, item_quantity = 2\<rparr>],
      totalAmount = 179, status = PENDING, createdAt = ''2024-05-01T10:00:00''\<rparr>"

definition failing_api :: "Order list apiService" where
  "failing_api =
     \<lparr>getAllOrders = (\<lambda>b. (Inl (JsError ''Network Error''), b)),
      updateOrderStatus = (\<lambda>i st b. (Inl (JsError ''Network Error''), b)),
      createProduct = (\<lambda>d b. (Inl (JsError ''Network Error''), b))\<rparr>"

definition working_api :: "Order list apiService" where
  "working_api =
     \<lparr>getAllOrders = (\<lambda>b. (Inr b, b)),
      updateOrderStatus =
        (\<lambda>i st b. (Inr (), map (\<lambda>ord. if order_id ord = i then ord\<lparr>status := st\<rparr> else ord) b)),
      createProduct = (\<lambda>d b. (Inr (), b))\<rparr>"

definition open_dialog :: AdminOrders where
  "open_dialog =
     (handleStatusUpdate sample_order
        (AdminOrders_initial\<lparr>loading := False, orders := [sample_order]\<rparr>))
     \<lparr>newStatus := SHIPPED\<rparr>"

definition filled_form :: "string \<Rightarrow> string \<Rightarrow> AdminProductForm" where
  "filled_form price_text stock_text =
     AdminProductForm_initial
       \<lparr>formData :=
          (formData AdminProductForm_initial)
            \<lparr>name := ''Keychron K2'', description := ''A compact wireless keyboard'',
             price := price_text, brand := ''Keychron'', stockQuantity := stock_text\<rparr>\<rparr>"

section \<open>Properties\<close>

subsection \<open>Stock warnings (C1)\<close>

lemma warning_simps:
  "is_low_stock_warning (Alert sev t) = (sev = ''warning'')"
  "is_low_stock_warning (Chip l c) = (c = ''warning'')"
  "is_low_stock_warning (Typography t c) = (c = ''warning'')"
  "is_low_stock_warning (Button l d) = False"
  "is_low_stock_warning (Img a b) = False"
  "is_low_stock_warning Rating = False"
  "is_low_stock_warning Star = False"
  "is_low_stock_warning CircularProgress = False"
  "is_out_of_stock_warning (Alert sev t) = (sev = ''error'')"
  "is_out_of_stock_warning (Chip l c) = (c = ''error'')"
  "is_out_of_stock_warning (Typography t c) = (c = ''error'')"
  "is_out_of_stock_warning (Button l d) = False"
  "is_out_of_stock_warning (Img a b) = False"
  "is_out_of_stock_warning Rating = False"
  "is_out_of_stock_warning Star = False"
  "is_out_of_stock_warning CircularProgress = False"
  "is_stock_chip (Alert sev t) = False"
  "is_stock_chip (Chip l c) = (c = ''success'' \<or> c = ''error'')"
  "is_stock_chip (Typography t c) = False"
  "is_stock_chip (Button l d) = False"
  "is_stock_chip (Img a b) = False"
  "is_stock_chip Rating = False"
  "is_stock_chip Star = False"
  "is_stock_chip CircularProgress = False"
  by (simp_all add: is_low_stock_warning_def is_out_of_stock_warning_def is_stock_chip_def)

lemmas render_defs =
  low_stock_warnings_def out_of_stock_warnings_def stock_chips_def ProductDetail_page_def
  Home_card_def stock_chip_color_def add_to_cart_button_def

text \<open>
  C1, as stated, fails on the home card: a product with 3 units in stock is rendered
  with the green chip \<open>In Stock (3)\<close> and nothing of severity or colour \<open>warning\<close>.
\<close>

theorem home_low_stock_counterexample:
  "1 \<le> stockQuantity (sample_product 3) \<and> stockQuantity (sample_product 3) \<le> 5
   \<and> low_stock_warnings (Home_card False (sample_product 3)) = []
   \<and> low_stock_warnings (Home_card True (sample_product 3)) = []"
  by (simp add: sample_product_def render_defs warning_simps)

text \<open>
  C1, amended. On the product detail page a low-stock warning is rendered exactly when
  \<open>1 \<le> stockQuantity \<le> 5\<close>, the out-of-stock alert (with the red chip and the red
  line under the button) exactly when \<open>stockQuantity = 0\<close>, and nothing of either kind
  when \<open>stockQuantity > 5\<close>. The home card never renders a low-stock warning, and it
  renders an out-of-stock warning exactly when \<open>stockQuantity\<close> is not positive. Its
  stock chips, for a stock quantity that is a safe integer, are the green chip
  \<open>In Stock (n)\<close> when \<open>stockQuantity > 0\<close> and the red chip \<open>Out of Stock\<close>
  otherwise, followed for an administrator by the chip \<open>Stock: n\<close> of the same colour;
  the stock chip of the detail page is \<open>In Stock (n available)\<close> or \<open>Out of Stock\<close>.
\<close>

theorem stock_warnings:
  "low_stock_warnings (ProductDetail_page p qty) =
     (if 1 \<le> stockQuantity p \<and> stockQuantity p \<le> 5
      then [Alert ''warning''
              (''Only '' @ show_int (stockQuantity p)
               @ '' left in stock! Order soon to avoid disappointment.'')]
      else [])
   \<and> out_of_stock_warnings (ProductDetail_page p qty) =
     (if stockQuantity p > 0 then []
      else Chip ''Out of Stock'' ''error'' #
        (if stockQuantity p = 0
         then [Alert ''error''
                 (''This product is currently out of stock. Please check back later ''
                  @ ''or contact us for availability updates.''),
               Typography ''This product is currently out of stock'' ''error'']
         else []))
   \<and> low_stock_warnings (Home_card isAdmin p) = []
   \<and> (out_of_stock_warnings (Home_card isAdmin p) = []) = (stockQuantity p > 0)
   \<and> (is_safe_integer (stockQuantity p) \<longrightarrow>
        out_of_stock_warnings (Home_card isAdmin p) =
          (if stockQuantity p > 0 then []
           else Chip ''Out of Stock'' ''error'' #
             (if isAdmin then [Chip (''Stock: '' @ show_int (stockQuantity p)) ''error'']
              else []))
        \<and> stock_chips (Home_card isAdmin p) =
          (if stockQuantity p > 0
           then Chip (''In Stock ('' @ show_int (stockQuantity p) @ '')'') ''success'' #
             (if isAdmin then [Chip (''Stock: '' @ show_int (stockQuantity p)) ''success'']
              else [])
           else Chip ''Out of Stock'' ''error'' #
             (if isAdmin then [Chip (''Stock: '' @ show_int (stockQuantity p)) ''error'']
              else []))
        \<and> stock_chips (ProductDetail_page p qty) =
          [if stockQuantity p > 0
           then Chip (''In Stock ('' @ show_int (stockQuantity p) @ '' available)'') ''success''
           else Chip ''Out of Stock'' ''error''])"
proof (intro conjI impI)
  show "low_stock_warnings (ProductDetail_page p qty) =
     (if 1 \<le> stockQuantity p \<and> stockQuantity p \<le> 5
      then [Alert ''warning''
              (''Only '' @ show_int (stockQuantity p)
               @ '' left in stock! Order soon to avoid disappointment.'')]
      else [])"
    by (simp add: render_defs warning_simps)
  show "out_of_stock_warnings (ProductDetail_page p qty) =
     (if stockQuantity p > 0 then []
      else Chip ''Out of Stock'' ''error'' #
        (if stockQuantity p = 0
         then [Alert ''error''
                 (''This product is currently out of stock. Please check back later ''
                  @ ''or contact us for availability updates.''),
               Typography ''This product is currently out of stock'' ''error'']
         else []))"
    by (simp add: render_defs warning_simps)
  show "low_stock_warnings (Home_card isAdmin p) = []"
    by (simp add: render_defs warning_simps)
  show "(out_of_stock_warnings (Home_card isAdmin p) = []) = (stockQuantity p > 0)"
    by (simp add: render_defs warning_simps)
  show "out_of_stock_warnings (Home_card isAdmin p) =
          (if stockQuantity p > 0 then []
           else Chip ''Out of Stock'' ''error'' #
             (if isAdmin then [Chip (''Stock: '' @ show_int (stockQuantity p)) ''error'']
              else []))"
    by (simp add: render_defs warning_simps)
  show "stock_chips (Home_card isAdmin p) =
          (if stockQuantity p > 0
           then Chip (''In Stock ('' @ show_int (stockQuantity p) @ '')'') ''success'' #
             (if isAdmin then [Chip (''Stock: '' @ show_int (stockQuantity p)) ''success'']
              else [])
           else Chip ''Out of Stock'' ''error'' #
             (if isAdmin then [Chip (''Stock: '' @ show_int (stockQuantity p)) ''error'']
              else []))"
    by (simp add: render_defs warning_simps)
  show "stock_chips (ProductDetail_page p qty) =
          [if stockQuantity p > 0
           then Chip (''In Stock ('' @ show_int (stockQuantity p) @ '' available)'') ''success''
           else Chip ''Out of Stock'' ''error'']"
    by (simp add: render_defs warning_simps)
qed

theorem stock_warnings_witness:
  "is_safe_integer (stockQuantity (sample_product 3))
   \<and> stock_chips (Home_card False (sample_product 3)) = [Chip ''In Stock (3)'' ''success'']
   \<and> stock_chips (Home_card True (sample_product 3)) =
       [Chip ''In Stock (3)'' ''success'', Chip ''Stock: 3'' ''success'']
   \<and> out_of_stock_warnings (Home_card False (sample_product 3)) = []
   \<and> stock_chips (ProductDetail_page (sample_product 3) 1) =
       [Chip ''In Stock (3 available)'' ''success'']
   \<and> is_safe_integer (stockQuantity (sample_product 0))
   \<and> stock_chips (Home_card False (sample_product 0)) = [Chip ''Out of Stock'' ''error'']
   \<and> out_of_stock_warnings (Home_card False (sample_product 0)) =
       [Chip ''Out of Stock'' ''error'']"
proof -
  have s: "is_safe_integer (stockQuantity (sample_product 3))"
    "is_safe_integer (stockQuantity (sample_product 0))"
    by (simp_all add: is_safe_integer_def sample_product_def)
  have q: "stockQuantity (sample_product n) = n" for n
    by (simp add: sample_product_def)
  have t: "show_int 3 = ''3''"
    by (simp add: show_int_def show_nat.simps digit_char_def)
  from stock_warnings [of "sample_product 3" 1 False] stock_warnings [of "sample_product 3" 1 True]
    stock_warnings [of "sample_product 0" 1 False] s
  show ?thesis by (simp add: q t)
qed

subsection \<open>The status dialog on a failed update (C2)\<close>

lemma open_dialog_simps:
  "selectedOrder open_dialog = Some sample_order"
  "newStatus open_dialog = SHIPPED"
  "statusDialogOpen open_dialog"
  "order_id sample_order = 42"
  by (simp_all add: open_dialog_def handleStatusUpdate_def sample_order_def)

text \<open>
  C2, as stated, fails: when the update call is rejected the handler leaves the dialog
  open.
\<close>

theorem dialog_closes_counterexample:
  "selectedOrder open_dialog = Some sample_order
   \<and> fst (updateOrderStatus failing_api 42 SHIPPED [sample_order]) = Inl (JsError ''Network Error'')
   \<and> statusDialogOpen (fst (handleStatusSubmit failing_api open_dialog [sample_order]))"
  by (simp add: handleStatusSubmit_def failing_api_def open_dialog_simps)

text \<open>
  C2, amended. With an order selected: when the update call is rejected, the handler
  changes nothing but \<open>error\<close>, which becomes \<open>Failed to update order status\<close> and is
  what the banner shows; the dialog flag and the selected order stay as they were, so an
  open dialog stays open. When the update call succeeds, the dialog flag is false and no
  order is selected afterwards.
\<close>

theorem status_submit_dialog:
  assumes "selectedOrder s = Some sel"
  shows "(\<forall>err b1. updateOrderStatus api (order_id sel) (newStatus s) b = (Inl err, b1) \<longrightarrow>
            handleStatusSubmit api s b =
              (s\<lparr>error := Some ''Failed to update order status''\<rparr>, b1,
               [Call_updateOrderStatus (order_id sel) (newStatus s),
                ConsoleError ''Error updating order status:'' err])
            \<and> AdminOrders_banner (fst (handleStatusSubmit api s b)) =
                (if loading s then [CircularProgress]
                 else [Alert ''error'' ''Failed to update order status'']))
       \<and> (\<forall>u b1. updateOrderStatus api (order_id sel) (newStatus s) b = (Inr u, b1) \<longrightarrow>
            \<not> statusDialogOpen (fst (handleStatusSubmit api s b))
            \<and> selectedOrder (fst (handleStatusSubmit api s b)) = None)"
  using assms
  by (simp add: handleStatusSubmit_def AdminOrders_banner_def truthy_def or_else_def
           split: prod.splits)

theorem status_submit_dialog_witness:
  "selectedOrder open_dialog = Some sample_order
   \<and> handleStatusSubmit failing_api open_dialog [sample_order] =
       (open_dialog\<lparr>error := Some ''Failed to update order status''\<rparr>, [sample_order],
        [Call_updateOrderStatus 42 SHIPPED,
         ConsoleError ''Error updating order status:'' (JsError ''Network Error'')])
   \<and> statusDialogOpen (fst (handleStatusSubmit failing_api open_dialog [sample_order]))
   \<and> \<not> statusDialogOpen (fst (handleStatusSubmit working_api open_dialog [sample_order]))"
proof -
  note sel = open_dialog_simps(1)
  have f: "updateOrderStatus failing_api (order_id sample_order) (newStatus open_dialog)
             [sample_order] = (Inl (JsError ''Network Error''), [sample_order])"
    by (simp add: failing_api_def)
  have w: "updateOrderStatus working_api (order_id sample_order) (newStatus open_dialog)
             [sample_order] = (Inr (), [sample_order\<lparr>status := SHIPPED\<rparr>])"
    by (simp add: working_api_def open_dialog_simps)
  from status_submit_dialog [OF sel, of failing_api "[sample_order]"] f
  have 1: "handleStatusSubmit failing_api open_dialog [sample_order] =
       (open_dialog\<lparr>error := Some ''Failed to update order status''\<rparr>, [sample_order],
        [Call_updateOrderStatus 42 SHIPPED,
         ConsoleError ''Error updating order status:'' (JsError ''Network Error'')])"
    by (simp add: open_dialog_simps)
  then have 2: "statusDialogOpen (fst (handleStatusSubmit failing_api open_dialog [sample_order]))"
    by (simp add: open_dialog_simps)
  from status_submit_dialog [OF sel, of working_api "[sample_order]"] w
  have 3: "\<not> statusDialogOpen (fst (handleStatusSubmit working_api open_dialog [sample_order]))"
    by blast
  from sel 1 2 3 show ?thesis by blast
qed

subsection \<open>The quantity stepper (C3)\<close>

lemma click_bounds:
  "1 \<le> q \<and> q \<le> max 1 s \<Longrightarrow> 1 \<le> click s q a \<and> click s q a \<le> max 1 s"
  by (cases a)
     (auto simp: decrement_disabled_def decrement_onClick_def
                 increment_disabled_def increment_onClick_def)

lemma foldl_click_bounds:
  "1 \<le> q \<and> q \<le> max 1 s \<Longrightarrow>
   1 \<le> foldl (click s) q as \<and> foldl (click s) q as \<le> max 1 s"
proof (induction as arbitrary: q)
  case Nil
  then show ?case by simp
next
  case (Cons a as)
  from click_bounds [OF Cons.prems] have "1 \<le> click s q a \<and> click s q a \<le> max 1 s" .
  from Cons.IH [OF this] show ?case by simp
qed

text \<open>
  C3, as stated, fails: with \<open>stockQuantity = 0\<close> the counter starts at 1, which lies
  outside the (empty) range from 1 to 0, before any button is pressed.
\<close>

theorem stepper_range_counterexample:
  "stockQuantity (sample_product 0) = 0
   \<and> \<not> (1 \<le> stepper (stockQuantity (sample_product 0)) []
          \<and> stepper (stockQuantity (sample_product 0)) [] \<le> stockQuantity (sample_product 0))"
  by (simp add: stepper_def initial_quantity_def sample_product_def)

text \<open>
  C3, amended: for every product, after any sequence of stepper clicks the quantity is
  at least 1 and at most \<open>max 1 stockQuantity\<close>; so it lies in the range from 1 to
  \<open>stockQuantity\<close> when the product has at least one unit in stock, and it stays 1
  otherwise.
\<close>

theorem stepper_range:
  "1 \<le> stepper (stockQuantity p) actions
   \<and> stepper (stockQuantity p) actions \<le> max 1 (stockQuantity p)"
  unfolding stepper_def
  by (rule foldl_click_bounds) (simp add: initial_quantity_def)

subsection \<open>Add to cart without a session (C4)\<close>

text \<open>
  C4. With \<open>isAuthenticated\<close> false, both add-to-cart handlers navigate to the login
  route and do nothing else: whatever the cart holder's \<open>addToCart\<close> would do, it is
  not called, and the cart is returned as it was.
\<close>

theorem unauthenticated_add_to_cart:
  "Home_handleAddToCart False addToCart pid cart = (cart, [Navigate ''/login''])
   \<and> ProductDetail_handleAddToCart False addToCart loaded qty cart = (cart, [Navigate ''/login''])
   \<and> filter is_cart_call (snd (Home_handleAddToCart False addToCart pid cart)) = []
   \<and> filter is_cart_call (snd (ProductDetail_handleAddToCart False addToCart loaded qty cart)) = []"
  by (simp add: Home_handleAddToCart_def ProductDetail_handleAddToCart_def is_cart_call_def)

subsection \<open>Calls made by a confirmed status change (C5)\<close>

lemma fetchOrders_calls: "api_calls (snd (snd (fetchOrders api s b))) = [Call_getAllOrders]"
  by (cases "getAllOrders api b")
     (simp add: fetchOrders_def api_calls_def is_api_call_def Let_def split: sum.splits)

lemma fetchOrders_orders:
  "orders (fst (fetchOrders api s b)) =
     (case fst (getAllOrders api b) of Inr data \<Rightarrow> data | Inl e \<Rightarrow> orders s)"
  by (cases "getAllOrders api b") (simp add: fetchOrders_def Let_def split: sum.splits)

text \<open>
  C5, as stated, fails: when the update call is rejected, the handler makes the update
  call and no re-fetch.
\<close>

theorem refetch_counterexample:
  "selectedOrder open_dialog = Some sample_order
   \<and> api_calls (snd (snd (handleStatusSubmit failing_api open_dialog [sample_order])))
       = [Call_updateOrderStatus 42 SHIPPED]
   \<and> Call_getAllOrders \<notin> set (snd (snd (handleStatusSubmit failing_api open_dialog [sample_order])))"
  by (simp add: handleStatusSubmit_def failing_api_def open_dialog_simps
        api_calls_def is_api_call_def)

text \<open>
  C5, amended. With an order selected, the handler makes exactly one update call, with
  the selected order's id and the chosen status. When that call succeeds, exactly one
  fetch of the whole order list follows, and \<open>orders\<close> becomes the fetched list (or
  stays as it was when the fetch fails). When the update call is rejected, no fetch
  follows and \<open>orders\<close> stays as it was. In no case is \<open>orders\<close> patched locally.
\<close>

theorem status_submit_calls:
  assumes "selectedOrder s = Some sel"
  shows "(\<forall>err b1. updateOrderStatus api (order_id sel) (newStatus s) b = (Inl err, b1) \<longrightarrow>
            api_calls (snd (snd (handleStatusSubmit api s b))) =
              [Call_updateOrderStatus (order_id sel) (newStatus s)]
            \<and> orders (fst (handleStatusSubmit api s b)) = orders s)
       \<and> (\<forall>u b1. updateOrderStatus api (order_id sel) (newStatus s) b = (Inr u, b1) \<longrightarrow>
            api_calls (snd (snd (handleStatusSubmit api s b))) =
              [Call_updateOrderStatus (order_id sel) (newStatus s), Call_getAllOrders]
            \<and> orders (fst (handleStatusSubmit api s b)) =
                (case fst (getAllOrders api b1) of Inr data \<Rightarrow> data | Inl e \<Rightarrow> orders s))"
proof (intro conjI allI impI)
  fix err b1
  assume "updateOrderStatus api (order_id sel) (newStatus s) b = (Inl err, b1)"
  then show "api_calls (snd (snd (handleStatusSubmit api s b))) =
               [Call_updateOrderStatus (order_id sel) (newStatus s)]"
    and "orders (fst (handleStatusSubmit api s b)) = orders s"
    using assms by (simp_all add: handleStatusSubmit_def api_calls_def is_api_call_def)
next
  fix u b1
  assume u: "updateOrderStatus api (order_id sel) (newStatus s) b = (Inr u, b1)"
  obtain s2 b2 evs where f: "fetchOrders api s b1 = (s2, b2, evs)"
    by (cases "fetchOrders api s b1")
  have h: "handleStatusSubmit api s b =
             (s2\<lparr>statusDialogOpen := False, selectedOrder := None\<rparr>, b2,
              Call_updateOrderStatus (order_id sel) (newStatus s) # evs)"
    using assms u f by (simp add: handleStatusSubmit_def)
  from fetchOrders_calls [of api s b1] f have "api_calls evs = [Call_getAllOrders]"
    by simp
  then show "api_calls (snd (snd (handleStatusSubmit api s b))) =
               [Call_updateOrderStatus (order_id sel) (newStatus s), Call_getAllOrders]"
    by (simp add: h api_calls_def is_api_call_def)
  from fetchOrders_orders [of api s b1] f
  show "orders (fst (handleStatusSubmit api s b)) =
          (case fst (getAllOrders api b1) of Inr data \<Rightarrow> data | Inl e \<Rightarrow> orders s)"
    by (simp add: h)
qed

theorem status_submit_calls_witness:
  "selectedOrder open_dialog = Some sample_order
   \<and> api_calls (snd (snd (handleStatusSubmit working_api open_dialog [sample_order]))) =
       [Call_updateOrderStatus 42 SHIPPED, Call_getAllOrders]
   \<and> orders (fst (handleStatusSubmit working_api open_dialog [sample_order])) =
       [sample_order\<lparr>status := SHIPPED\<rparr>]
   \<and> api_calls (snd (snd (handleStatusSubmit failing_api open_dialog [sample_order]))) =
       [Call_updateOrderStatus 42 SHIPPED]
   \<and> orders (fst (handleStatusSubmit failing_api open_dialog [sample_order])) = [sample_order]"
proof -
  note sel = open_dialog_simps(1)
  have f: "updateOrderStatus failing_api (order_id sample_order) (newStatus open_dialog)
             [sample_order] = (Inl (JsError ''Network Error''), [sample_order])"
    by (simp add: failing_api_def)
  have w: "updateOrderStatus working_api (order_id sample_order) (newStatus open_dialog)
             [sample_order] = (Inr (), [sample_order\<lparr>status := SHIPPED\<rparr>])"
    by (simp add: working_api_def open_dialog_simps)
  have g: "fst (getAllOrders working_api [sample_order\<lparr>status := SHIPPED\<rparr>]) =
             Inr [sample_order\<lparr>status := SHIPPED\<rparr>]"
    by (simp add: working_api_def)
  have o: "orders open_dialog = [sample_order]"
    by (simp add: open_dialog_def handleStatusUpdate_def)
  from status_submit_calls [OF sel, of working_api "[sample_order]"] w g
  have 1: "api_calls (snd (snd (handleStatusSubmit working_api open_dialog [sample_order]))) =
             [Call_updateOrderStatus 42 SHIPPED, Call_getAllOrders]
           \<and> orders (fst (handleStatusSubmit working_api open_dialog [sample_order])) =
             [sample_order\<lparr>status := SHIPPED\<rparr>]"
    by (simp add: open_dialog_simps)
  from status_submit_calls [OF sel, of failing_api "[sample_order]"] f o
  have 2: "api_calls (snd (snd (handleStatusSubmit failing_api open_dialog [sample_order]))) =
             [Call_updateOrderStatus 42 SHIPPED]
           \<and> orders (fst (handleStatusSubmit failing_api open_dialog [sample_order])) =
             [sample_order]"
    by (simp add: open_dialog_simps)
  from sel 1 2 show ?thesis by blast
qed

subsection \<open>Parsing a numeral at the start of a text\<close>


lemma digit_char_facts:
  assumes "is_DecimalDigit c"
  shows "\<not> is_StrWhiteSpaceChar c" "c \<noteq> CHR ''-''" "c \<noteq> CHR ''+''" "c \<noteq> CHR ''I''"
    "c \<noteq> CHR ''.''" "c \<noteq> CHR ''x''" "c \<noteq> CHR ''X''" "c \<noteq> CHR ''e''" "c \<noteq> CHR ''E''"
  using assms
  by (auto simp: is_StrWhiteSpaceChar_def is_DecimalDigit_def is_radix_digit_def digit_value_def)

lemma hex_char_facts:
  assumes "is_radix_digit 16 c"
  shows "\<not> is_StrWhiteSpaceChar c" "c \<noteq> CHR ''-''" "c \<noteq> CHR ''+''" "c \<noteq> CHR ''x''" "c \<noteq> CHR ''X''"
  using assms
  by (auto simp: is_StrWhiteSpaceChar_def is_radix_digit_def digit_value_def)

lemma mark_char_facts:
  "\<not> is_StrWhiteSpaceChar CHR ''-''" "\<not> is_StrWhiteSpaceChar CHR ''+''"
  "\<not> is_StrWhiteSpaceChar CHR ''.''"
  "\<not> is_DecimalDigit CHR ''.''" "\<not> is_DecimalDigit CHR ''e''" "\<not> is_DecimalDigit CHR ''E''"
  "\<not> is_DecimalDigit CHR ''-''" "\<not> is_DecimalDigit CHR ''+''"
  by (simp_all add: is_StrWhiteSpaceChar_def is_DecimalDigit_def is_radix_digit_def digit_value_def)

lemma takeWhile_stop:
  assumes "list_all P ds" and "rest = [] \<or> \<not> P (hd rest)"
  shows "takeWhile P (ds @ rest) = ds" and "dropWhile P (ds @ rest) = rest"
proof -
  from assms(2) have "takeWhile P rest = []" "dropWhile P rest = rest"
    by (cases rest; simp)+
  with assms(1) show "takeWhile P (ds @ rest) = ds" and "dropWhile P (ds @ rest) = rest"
    by (induction ds) simp_all
qed

lemma takeWhile_dropWhile_cases:
  obtains (all) "dropWhile P xs = []" "takeWhile P xs = xs" "list_all P xs"
  | (stop) c t where "dropWhile P xs = c # t" "\<not> P c" "xs = takeWhile P xs @ c # t"
      "list_all P (takeWhile P xs)"
proof (cases "dropWhile P xs")
  case Nil
  then have "list_all P xs" by (simp add: list_all_iff)
  with Nil show ?thesis using all by (simp add: list_all_iff)
next
  case (Cons c t)
  have "\<not> P (hd (dropWhile P xs))" by (rule hd_dropWhile) (simp add: Cons)
  then have "\<not> P c" by (simp add: Cons)
  moreover have "takeWhile P xs @ dropWhile P xs = xs" by (rule takeWhile_dropWhile_id)
  then have "xs = takeWhile P xs @ c # t" by (simp add: Cons)
  moreover have "list_all P (takeWhile P xs)" by (auto simp: list_all_iff dest: set_takeWhileD)
  ultimately show ?thesis using stop Cons by blast
qed

lemma strip_sign_shape:
  "(snd (strip_sign S) = S \<and> (S = [] \<or> (hd S \<noteq> CHR ''-'' \<and> hd S \<noteq> CHR ''+'')))
   \<or> (\<exists>c. S = c # snd (strip_sign S) \<and> (c = CHR ''-'' \<or> c = CHR ''+''))"
  by (cases S) (simp_all add: strip_sign_def)

lemma strip_sign_append:
  assumes "S \<noteq> []"
  shows "strip_sign (S @ rest) = (fst (strip_sign S), snd (strip_sign S) @ rest)"
  using assms by (cases S) (auto simp: strip_sign_def)


lemma decimal_parts_shape_conj:
  assumes "decimal_parts U = (ip, fp, r2)"
  shows "list_all is_DecimalDigit ip \<and> list_all is_DecimalDigit fp \<and>
      (r2 = [] \<or> \<not> is_DecimalDigit (hd r2)) \<and>
      (U = ip @ r2 \<and> fp = [] \<and> (r2 = [] \<or> hd r2 \<noteq> CHR ''.'') \<or> U = ip @ CHR ''.'' # fp @ r2)"
proof (cases rule: takeWhile_dropWhile_cases [of is_DecimalDigit U])
  case all
  with assms show ?thesis
    by (simp add: decimal_parts_def Let_def)
next
  case (stop c t)
  show ?thesis
  proof (cases "c = CHR ''.''")
    case False
    with assms stop show ?thesis
      by (auto simp: decimal_parts_def Let_def)
  next
    case True
    with assms stop have ip: "ip = takeWhile is_DecimalDigit U"
      and fp: "fp = takeWhile is_DecimalDigit t" and r2: "r2 = dropWhile is_DecimalDigit t"
      by (simp_all add: decimal_parts_def Let_def)
    have "list_all is_DecimalDigit fp"
      unfolding fp by (auto simp: list_all_iff dest: set_takeWhileD)
    moreover have "r2 = [] \<or> \<not> is_DecimalDigit (hd r2)"
      unfolding r2 using hd_dropWhile [of is_DecimalDigit t] by blast
    moreover have "t = fp @ r2" unfolding fp r2 by simp
    ultimately show ?thesis using stop True ip by simp
  qed
qed

lemma decimal_parts_shape:
  assumes "decimal_parts U = (ip, fp, r2)"
  shows "list_all is_DecimalDigit ip" and "list_all is_DecimalDigit fp"
    and "r2 = [] \<or> \<not> is_DecimalDigit (hd r2)"
    and "(U = ip @ r2 \<and> fp = [] \<and> (r2 = [] \<or> hd r2 \<noteq> CHR ''.''))
         \<or> U = ip @ CHR ''.'' # fp @ r2"
  using decimal_parts_shape_conj [OF assms] by blast+

lemma decimal_parts_append:
  assumes "decimal_parts U = (ip, fp, r2)"
    and "rest = [] \<or> \<not> is_DecimalDigit (hd rest)"
    and "CHR ''.'' \<in> set U \<or> r2 \<noteq> [] \<or> rest = [] \<or> hd rest \<noteq> CHR ''.''"
  shows "decimal_parts (U @ rest) = (ip, fp, r2 @ rest)"
proof -
  note sh = decimal_parts_shape [OF assms(1)]
  have nd: "r2 @ rest = [] \<or> \<not> is_DecimalDigit (hd (r2 @ rest))"
    using sh(3) assms(2) by (cases r2) auto
  from sh(4) show ?thesis
  proof
    assume A: "U = ip @ r2 \<and> fp = [] \<and> (r2 = [] \<or> hd r2 \<noteq> CHR ''.'')"
    then have U: "U @ rest = ip @ (r2 @ rest)" by simp
    have pt: "r2 @ rest = [] \<or> hd (r2 @ rest) \<noteq> CHR ''.''"
    proof (cases r2)
      case Nil
      with A have "U = ip" by simp
      with sh(1) have "CHR ''.'' \<notin> set U"
        by (auto simp: list_all_iff mark_char_facts)
      with assms(3) Nil show ?thesis by simp
    next
      case (Cons c t)
      with A show ?thesis by simp
    qed
    have tw: "takeWhile is_DecimalDigit (U @ rest) = ip"
      and dw: "dropWhile is_DecimalDigit (U @ rest) = r2 @ rest"
      unfolding U using takeWhile_stop [OF sh(1) nd] by blast+
    from pt A show ?thesis
      unfolding decimal_parts_def tw dw Let_def by (cases "r2 @ rest") auto
  next
    assume B: "U = ip @ CHR ''.'' # fp @ r2"
    then have U: "U @ rest = ip @ (CHR ''.'' # fp @ (r2 @ rest))" by simp
    have d: "CHR ''.'' # fp @ (r2 @ rest) = [] \<or> \<not> is_DecimalDigit (hd (CHR ''.'' # fp @ (r2 @ rest)))"
      by (simp add: mark_char_facts)
    have tw: "takeWhile is_DecimalDigit (U @ rest) = ip"
      and dw: "dropWhile is_DecimalDigit (U @ rest) = CHR ''.'' # fp @ (r2 @ rest)"
      unfolding U using takeWhile_stop [OF sh(1) d] by blast+
    from takeWhile_stop [OF sh(2) nd] show ?thesis
      unfolding decimal_parts_def tw dw Let_def by simp
  qed
qed

lemma exponent_part_append:
  assumes "rest = [] \<or> \<not> is_DecimalDigit (hd rest)"
    and "exponent_text r2 \<or> (r2 = [] \<and> \<not> exponent_start rest)"
  shows "exponent_part (r2 @ rest) = exponent_part r2"
  using assms(2)
proof
  assume "exponent_text r2"
  then obtain c x where r2: "r2 = c # x" and c: "c = CHR ''e'' \<or> c = CHR ''E''"
    and ne: "snd (strip_sign x) \<noteq> []" and ds: "list_all is_DecimalDigit (snd (strip_sign x))"
    by (cases r2) (auto simp: exponent_text_def)
  from ne have x: "x \<noteq> []" by (auto simp: strip_sign_def)
  note tw = takeWhile_stop(1) [OF ds assms(1)]
  have tw0: "takeWhile is_DecimalDigit (snd (strip_sign x)) = snd (strip_sign x)"
    using ds by (simp add: list_all_iff)
  show ?thesis
    using c ne by (simp add: r2 exponent_part_def strip_sign_append [OF x] tw tw0 split_beta)
next
  assume "r2 = [] \<and> \<not> exponent_start rest"
  then show ?thesis
    by (cases rest) (auto simp: exponent_part_def exponent_start_def split_beta)
qed


lemma parseFloat_unfold:
  assumes "dropWhile is_StrWhiteSpaceChar S = S'" and "strip_sign S' = (sg, U)"
    and "take 8 U \<noteq> ''Infinity''" and "decimal_parts U = (ip, fp, r2)"
    and "ip \<noteq> [] \<or> fp \<noteq> []"
  shows "parseFloat S =
           to_Number sg (radix_value 10 (ip @ fp)) (exponent_part r2 - int (length fp))"
  using assms by (auto simp: parseFloat_def Let_def)

lemma parseInt_unfold:
  assumes "dropWhile is_StrWhiteSpaceChar S = S'" and "strip_sign S' = (sg, S1)"
    and "(R, S2) = (if hex_prefixed S1 then (16, drop 2 S1) else (10, S1))"
    and "takeWhile (is_radix_digit R) S2 = Z" and "Z \<noteq> []"
  shows "parseInt S = to_Number sg (radix_value R Z) 0"
  using assms by (auto simp: parseInt_def Let_def hex_prefixed_def split: if_splits)

lemma not_Infinity: "xs \<noteq> [] \<Longrightarrow> hd xs \<noteq> CHR ''I'' \<Longrightarrow> take 8 xs \<noteq> ''Infinity''"
  by (cases xs) auto

lemma number_text_parts:
  assumes "is_number_text lit"
  obtains ip fp r2 where "decimal_parts (snd (strip_sign lit)) = (ip, fp, r2)"
    and "ip \<noteq> [] \<or> fp \<noteq> []" and "r2 = [] \<or> exponent_text r2"
  using assms by (cases "decimal_parts (snd (strip_sign lit))") (auto simp: is_number_text_def)

lemma number_text_head:
  assumes "decimal_parts U = (ip, fp, r2)" and "ip \<noteq> [] \<or> fp \<noteq> []"
  shows "U \<noteq> []" and "is_DecimalDigit (hd U) \<or> hd U = CHR ''.''"
proof -
  note sh = decimal_parts_shape [OF assms(1)]
  from sh(4) assms(2) show "U \<noteq> []" by auto
  from sh(4) assms(2) sh(1) show "is_DecimalDigit (hd U) \<or> hd U = CHR ''.''"
    by (cases ip) auto
qed

lemma signed_head:
  assumes "snd (strip_sign lit) \<noteq> []"
    and "\<not> is_StrWhiteSpaceChar (hd (snd (strip_sign lit)))"
  shows "lit \<noteq> []" and "\<not> is_StrWhiteSpaceChar (hd lit)"
  using assms by (cases lit; auto simp: strip_sign_def mark_char_facts split: if_splits)+

lemma no_exponent:
  assumes "decimal_parts (snd (strip_sign lit)) = (ip, fp, [])"
  shows "\<not> has_exponent lit"
proof -
  note sh = decimal_parts_shape [OF assms]
  have U: "\<forall>c \<in> set (snd (strip_sign lit)). is_DecimalDigit c \<or> c = CHR ''.''"
    using sh(1,2,4) by (auto simp: list_all_iff)
  have "\<forall>c \<in> set lit. is_DecimalDigit c \<or> c = CHR ''.'' \<or> c = CHR ''-'' \<or> c = CHR ''+''"
    using U by (cases lit) (auto simp: strip_sign_def split: if_splits)
  then show ?thesis
    by (auto simp: has_exponent_def mark_char_facts)
qed

lemma point_in_unsigned:
  "CHR ''.'' \<in> set lit \<Longrightarrow> CHR ''.'' \<in> set (snd (strip_sign lit))"
  by (cases lit) (auto simp: strip_sign_def split: if_splits)

lemma parseFloat_numeral_prefix:
  assumes "list_all is_StrWhiteSpaceChar w" and "is_number_text lit" and "float_stops lit rest"
  shows "parseFloat (w @ lit @ rest) = parseFloat lit"
proof -
  define U where "U = snd (strip_sign lit)"
  from number_text_parts [OF assms(2)] obtain ip fp r2 where
    dp: "decimal_parts U = (ip, fp, r2)" and ne: "ip \<noteq> [] \<or> fp \<noteq> []"
    and ex: "r2 = [] \<or> exponent_text r2"
    unfolding U_def by blast
  note hd = number_text_head [OF dp ne]
  have nws: "\<not> is_StrWhiteSpaceChar (hd U)"
    using hd(2) by (auto simp: digit_char_facts mark_char_facts)
  have lit: "lit \<noteq> []" "\<not> is_StrWhiteSpaceChar (hd lit)"
    using signed_head [of lit] hd(1) nws unfolding U_def by blast+
  have dw: "dropWhile is_StrWhiteSpaceChar (w @ lit @ rest) = lit @ rest"
    by (rule takeWhile_stop(2) [OF assms(1)]) (use lit in auto)
  have dwl: "dropWhile is_StrWhiteSpaceChar lit = lit"
    using lit by (cases lit) auto
  have ss: "strip_sign (lit @ rest) = (fst (strip_sign lit), U @ rest)"
    unfolding U_def by (rule strip_sign_append [OF lit(1)])
  have ssl: "strip_sign lit = (fst (strip_sign lit), U)"
    unfolding U_def by simp
  have nI: "hd U \<noteq> CHR ''I''"
    using hd(2) by (auto simp: digit_char_facts)
  have ninf: "take 8 (U @ rest) \<noteq> ''Infinity''" "take 8 U \<noteq> ''Infinity''"
  proof -
    show "take 8 (U @ rest) \<noteq> ''Infinity''"
      by (rule not_Infinity) (use hd(1) nI in simp_all)
    show "take 8 U \<noteq> ''Infinity''"
      by (rule not_Infinity) (use hd(1) nI in simp_all)
  qed
  have nd: "rest = [] \<or> \<not> is_DecimalDigit (hd rest)"
    using assms(3) by (cases rest) (auto simp: float_stops_def)
  have r2e: "r2 = [] \<Longrightarrow> \<not> has_exponent lit"
    using no_exponent [of lit ip fp] dp unfolding U_def by simp
  have pt: "CHR ''.'' \<in> set U \<or> r2 \<noteq> [] \<or> rest = [] \<or> hd rest \<noteq> CHR ''.''"
    using assms(3) r2e point_in_unsigned [of lit] unfolding U_def
    by (cases rest) (auto simp: float_stops_def)
  have xe: "exponent_text r2 \<or> (r2 = [] \<and> \<not> exponent_start rest)"
    using assms(3) r2e ex
    by (cases rest) (auto simp: float_stops_def exponent_start_def)
  note dpa = decimal_parts_append [OF dp nd pt]
  note epa = exponent_part_append [OF nd xe]
  show ?thesis
    unfolding parseFloat_unfold [OF dw ss ninf(1) dpa ne]
      parseFloat_unfold [OF dwl ssl ninf(2) dp ne] epa ..
qed

lemma parseFloat_infinity_prefix:
  assumes "list_all is_StrWhiteSpaceChar w" and "is_infinity_text lit"
  shows "parseFloat (w @ lit @ rest) = parseFloat lit"
proof -
  from assms(2) have U: "snd (strip_sign lit) = ''Infinity''"
    by (simp add: is_infinity_text_def)
  have nws: "\<not> is_StrWhiteSpaceChar CHR ''I''"
    by (simp add: is_StrWhiteSpaceChar_def)
  have lit: "lit \<noteq> []" "\<not> is_StrWhiteSpaceChar (hd lit)"
    using signed_head [of lit] nws by (simp_all add: U)
  have dw: "dropWhile is_StrWhiteSpaceChar (w @ lit @ rest) = lit @ rest"
    by (rule takeWhile_stop(2) [OF assms(1)]) (use lit in auto)
  have dwl: "dropWhile is_StrWhiteSpaceChar lit = lit"
    using lit by (cases lit) auto
  obtain sg where ssl: "strip_sign lit = (sg, ''Infinity'')"
    using U by (cases "strip_sign lit") simp
  have ss: "strip_sign (lit @ rest) = (sg, ''Infinity'' @ rest)"
    using strip_sign_append [OF lit(1), of rest] by (simp add: ssl)
  show ?thesis
    by (simp add: parseFloat_def dw dwl ss ssl)
qed

lemma parseFloat_prefix:
  assumes "list_all is_StrWhiteSpaceChar w" and "float_prefix lit rest"
  shows "parseFloat (w @ lit @ rest) = parseFloat lit"
  using assms parseFloat_infinity_prefix parseFloat_numeral_prefix
  by (auto simp: float_prefix_def)

lemma parseInt_prefix:
  assumes "list_all is_StrWhiteSpaceChar w" and "is_integer_text lit" and "int_stops lit rest"
  shows "parseInt (w @ lit @ rest) = parseInt lit"
proof -
  define S1 where "S1 = snd (strip_sign lit)"
  define R :: nat where "R = (if hex_prefixed S1 then 16 else 10)"
  define Z where "Z = (if hex_prefixed S1 then drop 2 S1 else S1)"
  have Z: "Z \<noteq> []" "list_all (is_radix_digit R) Z"
    using assms(2) unfolding R_def Z_def S1_def
    by (auto simp: is_integer_text_def Let_def is_DecimalDigit_def [abs_def])
  have S1: "S1 \<noteq> []" using Z(1) unfolding Z_def by (auto split: if_splits)
  have hd1: "is_radix_digit 16 (hd S1)"
  proof (cases "hex_prefixed S1")
    case True
    then have "hd S1 = CHR ''0''" by (cases S1) (auto simp: hex_prefixed_def)
    then show ?thesis by (simp add: is_radix_digit_def digit_value_def)
  next
    case False
    with Z S1 have "is_radix_digit 10 (hd S1)"
      unfolding Z_def R_def by (cases S1) auto
    then show ?thesis by (auto simp: is_radix_digit_def split: option.splits)
  qed
  have nws: "\<not> is_StrWhiteSpaceChar (hd S1)" by (rule hex_char_facts(1) [OF hd1])
  have lit: "lit \<noteq> []" "\<not> is_StrWhiteSpaceChar (hd lit)"
    using signed_head [of lit] S1 nws unfolding S1_def by blast+
  have dw: "dropWhile is_StrWhiteSpaceChar (w @ lit @ rest) = lit @ rest"
    by (rule takeWhile_stop(2) [OF assms(1)]) (use lit in auto)
  have dwl: "dropWhile is_StrWhiteSpaceChar lit = lit"
    using lit by (cases lit) auto
  have ss: "strip_sign (lit @ rest) = (fst (strip_sign lit), S1 @ rest)"
    unfolding S1_def by (rule strip_sign_append [OF lit(1)])
  have ssl: "strip_sign lit = (fst (strip_sign lit), S1)"
    unfolding S1_def by simp
  have stop: "rest = [] \<or> \<not> is_radix_digit R (hd rest)"
    using assms(3) unfolding R_def S1_def
    by (cases rest) (auto simp: int_stops_def is_DecimalDigit_def)
  have hx: "hex_prefixed (S1 @ rest) = hex_prefixed S1"
  proof (cases "hex_prefixed S1")
    case True
    then show ?thesis by (cases S1; cases "tl S1") (auto simp: hex_prefixed_def)
  next
    case False
    have dig: "list_all is_DecimalDigit S1"
      using Z(2) False unfolding Z_def R_def by (simp add: is_DecimalDigit_def [abs_def])
    show ?thesis
    proof (cases S1)
      case Nil
      with S1 show ?thesis by simp
    next
      case (Cons d t)
      show ?thesis
      proof (cases t)
        case Nil
        have "rest = [] \<or> \<not> (S1 = ''0'' \<and> (hd rest = CHR ''x'' \<or> hd rest = CHR ''X''))"
          using assms(3) False unfolding S1_def
          by (cases rest) (auto simp: int_stops_def)
        with Cons Nil show ?thesis
          by (cases rest) (auto simp: hex_prefixed_def)
      next
        case (Cons d' t')
        with \<open>S1 = d # t\<close> dig have "is_DecimalDigit d'" by simp
        with Cons \<open>S1 = d # t\<close> show ?thesis
          by (auto simp: hex_prefixed_def digit_char_facts)
      qed
    qed
  qed
  have S2: "(if hex_prefixed (S1 @ rest) then drop 2 (S1 @ rest) else S1 @ rest) = Z @ rest"
    unfolding hx Z_def by (cases S1; cases "tl S1") (auto simp: hex_prefixed_def)
  have tw: "takeWhile (is_radix_digit R) (Z @ rest) = Z"
    by (rule takeWhile_stop(1) [OF Z(2) stop])
  have twl: "takeWhile (is_radix_digit R) Z = Z"
    using Z(2) by (simp add: list_all_iff)
  have len: "hex_prefixed S1 \<Longrightarrow> 2 - length S1 = 0"
    by (cases S1; cases "tl S1") (auto simp: hex_prefixed_def)
  have 1: "parseInt (w @ lit @ rest) = to_Number (fst (strip_sign lit)) (radix_value R Z) 0"
    by (rule parseInt_unfold [OF dw ss _ tw Z(1)]) (simp add: hx R_def Z_def len)
  have 2: "parseInt lit = to_Number (fst (strip_sign lit)) (radix_value R Z) 0"
    by (rule parseInt_unfold [OF dwl ssl _ twl Z(1)]) (simp add: R_def Z_def)
  from 1 2 show ?thesis by simp
qed


lemmas parse_defs =
  parseInt_def parseFloat_def strip_sign_def is_StrWhiteSpaceChar_def is_DecimalDigit_def
  is_radix_digit_def digit_value_def radix_value_def exponent_part_def decimal_parts_def
  to_Number_def binary64_def floor_log2_def round_half_even_def bit_length.simps
  js_negate_def Let_def

lemmas text_defs =
  is_number_text_def exponent_text_def is_integer_text_def hex_prefixed_def float_stops_def
  int_stops_def has_exponent_def exponent_start_def trim_def is_infinity_text_def
  float_prefix_def int_prefix_def

subsection \<open>Numbers that binary64 holds exactly\<close>

lemma bit_length_le: "n < 2 ^ m \<Longrightarrow> bit_length n \<le> m"
proof (induction m arbitrary: n)
  case 0
  then show ?case by (simp add: bit_length.simps)
next
  case (Suc m)
  show ?case
  proof (cases "n = 0")
    case True
    then show ?thesis by (simp add: bit_length.simps)
  next
    case False
    from Suc.prems have "n div 2 < 2 ^ m" by auto
    from Suc.IH [OF this] False show ?thesis
      by (subst bit_length.simps) simp
  qed
qed

lemma bit_length_pos: "0 < n \<Longrightarrow> 0 < bit_length n"
  by (subst bit_length.simps) simp

lemma bit_length_1: "bit_length (Suc 0) = Suc 0"
  by (simp add: bit_length.simps)

lemma round_half_even_1: "round_half_even x (Suc 0) = x"
  by (simp add: round_half_even_def)

lemma binary64_small:
  assumes "n < 2 ^ 53"
  shows "binary64 n (Suc 0) = Finite (of_nat n)"
proof (cases "n = 0")
  case True
  then show ?thesis by (simp add: binary64_def)
next
  case False
  define e where "e = floor_log2 n (Suc 0)"
  have bl: "0 < bit_length n" "bit_length n \<le> 53"
    using False bit_length_pos [of n] bit_length_le [OF assms] by auto
  have e: "- 1 \<le> e" "e \<le> 52"
    using bl unfolding e_def floor_log2_def bit_length_1 by (auto simp: Let_def)
  have p: "max (floor_log2 n (Suc 0) - 52) (- 1074) = e - 52"
    using e unfolding e_def by simp
  have "(of_nat n :: rat) < of_nat (2 ^ 53)" using assms by (simp only: of_nat_less_iff)
  also have "\<dots> \<le> 2 ^ 1024" by simp
  finally have lt: "\<not> (2 ^ 1024 \<le> (of_nat n :: rat))" by simp
  have b: "binary64 n (Suc 0) =
     (let m = (if 0 \<le> e - 52 then round_half_even n (Suc 0 * 2 ^ nat (e - 52))
               else round_half_even (n * 2 ^ nat (- (e - 52))) (Suc 0));
          v = (if 0 \<le> e - 52 then of_nat m * 2 ^ nat (e - 52) else of_nat m / 2 ^ nat (- (e - 52)))
      in if 2 ^ 1024 \<le> v then PosInfinity else Finite v)"
    using False unfolding binary64_def p by (simp only: if_False Let_def)
  show ?thesis
  proof (cases "e = 52")
    case True
    have "binary64 n (Suc 0) =
            (if 2 ^ 1024 \<le> (of_nat n :: rat) then PosInfinity else Finite (of_nat n))"
      unfolding b True by (simp add: round_half_even_1 Let_def)
    with lt show ?thesis by (simp only: if_False)
  next
    case neq: False
    with e have neg: "\<not> 0 \<le> e - 52" by simp
    have v: "(of_nat (n * 2 ^ nat (- (e - 52))) :: rat) / 2 ^ nat (- (e - 52)) = of_nat n"
      by simp
    have "binary64 n (Suc 0) =
            (if 2 ^ 1024 \<le> (of_nat n :: rat) then PosInfinity else Finite (of_nat n))"
      unfolding b Let_def round_half_even_1 by (simp only: neg if_False v)
    with lt show ?thesis by (simp only: if_False)
  qed
qed

lemma to_Number_small: "n < 2 ^ 53 \<Longrightarrow> to_Number 1 n 0 = Finite (of_nat n)"
  by (simp add: to_Number_def binary64_small)

lemma digit_char_digit:
  assumes "d < 10"
  shows "is_DecimalDigit (digit_char d)" and "digit_value (digit_char d) = Some d"
proof -
  from assms have "d \<in> {0, 1, 2, 3, 4, 5, 6, 7, 8, 9}" by auto
  then show "is_DecimalDigit (digit_char d)" and "digit_value (digit_char d) = Some d"
    by (auto simp: digit_char_def is_DecimalDigit_def is_radix_digit_def digit_value_def)
qed

lemma radix_value_snoc:
  "radix_value R (ds @ [c]) =
     (case digit_value c of None \<Rightarrow> radix_value R ds | Some d \<Rightarrow> radix_value R ds * R + d)"
  by (cases "digit_value c") (simp_all add: radix_value_def)

lemma show_nat_digits:
  "show_nat n \<noteq> [] \<and> list_all is_DecimalDigit (show_nat n) \<and> radix_value 10 (show_nat n) = n"
proof (induction n rule: show_nat.induct)
  case (1 n)
  show ?case
  proof (cases "n < 10")
    case True
    then show ?thesis
      by (subst (1 2 3) show_nat.simps) (simp add: digit_char_digit radix_value_def)
  next
    case False
    with 1 have IH: "show_nat (n div 10) \<noteq> []" "list_all is_DecimalDigit (show_nat (n div 10))"
      "radix_value 10 (show_nat (n div 10)) = n div 10" by auto
    have d: "n mod 10 < 10" by simp
    from False IH show ?thesis
      by (subst (1 2 3) show_nat.simps)
         (simp add: digit_char_digit [OF d] radix_value_snoc)
  qed
qed

lemma hex_prefixed_digits: "list_all is_DecimalDigit S \<Longrightarrow> \<not> hex_prefixed S"
  by (cases S; cases "tl S") (auto simp: hex_prefixed_def digit_char_facts)

lemma show_nat_unsigned: "strip_sign (show_nat n) = (1, show_nat n)"
proof -
  from show_nat_digits [of n] obtain c cs where "show_nat n = c # cs" "is_DecimalDigit c"
    by (cases "show_nat n") auto
  then show ?thesis by (simp add: strip_sign_def digit_char_facts)
qed

lemma parseInt_show_nat:
  assumes "n < 2 ^ 53"
  shows "parseInt (show_nat n) = Finite (of_nat n)"
proof -
  note d = show_nat_digits [of n]
  have c: "show_nat n \<noteq> []" "\<not> is_StrWhiteSpaceChar (hd (show_nat n))"
    using d by (cases "show_nat n"; auto simp: digit_char_facts)+
  have dw: "dropWhile is_StrWhiteSpaceChar (show_nat n) = show_nat n"
    using c by (cases "show_nat n") auto
  have tw: "takeWhile (is_radix_digit 10) (show_nat n) = show_nat n"
    using d by (simp add: list_all_iff is_DecimalDigit_def)
  have "parseInt (show_nat n) = to_Number 1 (radix_value 10 (show_nat n)) 0"
    by (rule parseInt_unfold [OF dw show_nat_unsigned _ tw])
       (use d hex_prefixed_digits in auto)
  with d assms show ?thesis by (simp add: to_Number_small)
qed

lemma parseFloat_show_nat:
  assumes "n < 2 ^ 53"
  shows "parseFloat (show_nat n) = Finite (of_nat n)"
proof -
  note d = show_nat_digits [of n]
  have c: "show_nat n \<noteq> []" "\<not> is_StrWhiteSpaceChar (hd (show_nat n))"
    "hd (show_nat n) \<noteq> CHR ''I''"
    using d by (cases "show_nat n"; auto simp: digit_char_facts)+
  have dw: "dropWhile is_StrWhiteSpaceChar (show_nat n) = show_nat n"
    using c by (cases "show_nat n") auto
  have dp: "decimal_parts (show_nat n) = (show_nat n, [], [])"
  proof -
    have tw: "takeWhile is_DecimalDigit (show_nat n) = show_nat n"
      "dropWhile is_DecimalDigit (show_nat n) = []"
      using d by (auto simp: list_all_iff)
    show ?thesis unfolding decimal_parts_def tw Let_def by simp
  qed
  have "parseFloat (show_nat n) =
          to_Number 1 (radix_value 10 (show_nat n @ []))
            (exponent_part [] - int (length ([]::string)))"
    by (rule parseFloat_unfold [OF dw show_nat_unsigned not_Infinity [OF c(1,3)] dp])
       (use d in auto)
  with d assms show ?thesis by (simp add: to_Number_small exponent_part_def)
qed


subsection \<open>Texts that are read as numbers\<close>

text \<open>
  The converse of \<open>parseFloat_prefix\<close> and \<open>parseInt_prefix\<close>: a text that
  \<open>parseFloat\<close> or \<open>parseInt\<close> reads as a number is white space, a numeral, and
  text that cannot make the numeral longer. So a text is read as a number greater
  than 0 (as an integer that is at least 0) exactly when it starts, white space aside,
  with a numeral of that kind.
\<close>

lemma strip_sign_unsigned:
  "L \<noteq> [] \<Longrightarrow> hd L \<noteq> CHR ''-'' \<Longrightarrow> hd L \<noteq> CHR ''+'' \<Longrightarrow> snd (strip_sign L) = L"
  by (cases L) (simp_all add: strip_sign_def)

lemma strip_sign_split:
  "\<exists>sgn. S = sgn @ snd (strip_sign S)
     \<and> (\<forall>L. L \<noteq> [] \<longrightarrow> hd L \<noteq> CHR ''-'' \<longrightarrow> hd L \<noteq> CHR ''+'' \<longrightarrow>
            snd (strip_sign (sgn @ L)) = L)"
proof (cases "S = snd (strip_sign S)")
  case True
  then have "S = [] @ snd (strip_sign S)" by simp
  moreover have "\<forall>L. L \<noteq> [] \<longrightarrow> hd L \<noteq> CHR ''-'' \<longrightarrow> hd L \<noteq> CHR ''+'' \<longrightarrow>
            snd (strip_sign ([] @ L)) = L"
    by (simp add: strip_sign_unsigned)
  ultimately show ?thesis by blast
next
  case False
  with strip_sign_shape [of S] obtain c where
    c: "S = c # snd (strip_sign S)" "c = CHR ''-'' \<or> c = CHR ''+''"
    by auto
  from c(1) have "S = [c] @ snd (strip_sign S)" by simp
  moreover have "\<forall>L. L \<noteq> [] \<longrightarrow> hd L \<noteq> CHR ''-'' \<longrightarrow> hd L \<noteq> CHR ''+'' \<longrightarrow>
            snd (strip_sign ([c] @ L)) = L"
    using c(2) by (auto simp: strip_sign_def)
  ultimately show ?thesis by blast
qed

lemma decimal_parts_mantissa:
  assumes "decimal_parts U = (ip, fp, r2)"
  obtains M where "U = M @ r2" and "decimal_parts M = (ip, fp, [])"
    and "CHR ''.'' \<in> set M \<or> r2 = [] \<or> hd r2 \<noteq> CHR ''.''"
proof -
  note sh = decimal_parts_shape [OF assms]
  from sh(4) show ?thesis
  proof
    assume A: "U = ip @ r2 \<and> fp = [] \<and> (r2 = [] \<or> hd r2 \<noteq> CHR ''.'')"
    have tw: "takeWhile is_DecimalDigit ip = ip" "dropWhile is_DecimalDigit ip = []"
      using sh(1) by (simp_all add: list_all_iff)
    have "decimal_parts ip = (ip, fp, [])"
      unfolding decimal_parts_def tw Let_def using A by simp
    with A show ?thesis using that [of ip] by blast
  next
    assume B: "U = ip @ CHR ''.'' # fp @ r2"
    have d: "CHR ''.'' # fp = [] \<or> \<not> is_DecimalDigit (hd (CHR ''.'' # fp))"
      by (simp add: mark_char_facts)
    have tw: "takeWhile is_DecimalDigit (ip @ CHR ''.'' # fp) = ip"
      "dropWhile is_DecimalDigit (ip @ CHR ''.'' # fp) = CHR ''.'' # fp"
      using takeWhile_stop [OF sh(1) d] by blast+
    have tf: "takeWhile is_DecimalDigit fp = fp" "dropWhile is_DecimalDigit fp = []"
      using sh(2) by (simp_all add: list_all_iff)
    have "decimal_parts (ip @ CHR ''.'' # fp) = (ip, fp, [])"
      unfolding decimal_parts_def tw Let_def by (simp add: tf)
    moreover have "U = (ip @ CHR ''.'' # fp) @ r2" using B by simp
    moreover have "CHR ''.'' \<in> set (ip @ CHR ''.'' # fp)" by simp
    ultimately show ?thesis using that [of "ip @ CHR ''.'' # fp"] by blast
  qed
qed


lemma parseFloat_reads_prefix:
  assumes "\<not> isNaN (parseFloat str)"
  shows "\<exists>w lit rest. str = w @ lit @ rest \<and> list_all is_StrWhiteSpaceChar w
           \<and> float_prefix lit rest"
proof -
  define w where "w = takeWhile is_StrWhiteSpaceChar str"
  define S where "S = dropWhile is_StrWhiteSpaceChar str"
  define U where "U = snd (strip_sign S)"
  have str: "str = w @ S" unfolding w_def S_def by simp
  have w: "list_all is_StrWhiteSpaceChar w"
    unfolding w_def by (auto simp: list_all_iff dest: set_takeWhileD)
  from strip_sign_split [of S] obtain sgn where S: "S = sgn @ U"
    and sg: "\<And>L. L \<noteq> [] \<Longrightarrow> hd L \<noteq> CHR ''-'' \<Longrightarrow> hd L \<noteq> CHR ''+'' \<Longrightarrow> snd (strip_sign (sgn @ L)) = L"
    unfolding U_def by blast
  show ?thesis
  proof (cases "take 8 U = ''Infinity''")
    case True
    have "U = take 8 U @ drop 8 U" by simp
    then have U: "U = ''Infinity'' @ drop 8 U" unfolding True .
    have "is_infinity_text (sgn @ ''Infinity'')"
      unfolding is_infinity_text_def by (rule sg) simp_all
    then have "float_prefix (sgn @ ''Infinity'') (drop 8 U)"
      by (simp add: float_prefix_def)
    moreover have "str = w @ (sgn @ ''Infinity'') @ drop 8 U"
      using str S U by simp
    ultimately show ?thesis using w by blast
  next
    case False
    obtain ip fp r2 where dp: "decimal_parts U = (ip, fp, r2)"
      by (cases "decimal_parts U") auto
    have ne: "ip \<noteq> [] \<or> fp \<noteq> []"
      using assms False dp
      by (auto simp: parseFloat_def Let_def isNaN_def S_def [symmetric] U_def [symmetric]
            split_beta)
    note sh = decimal_parts_shape [OF dp]
    from decimal_parts_mantissa [OF dp] obtain M where
      UM: "U = M @ r2" and dpM: "decimal_parts M = (ip, fp, [])"
      and pt: "CHR ''.'' \<in> set M \<or> r2 = [] \<or> hd r2 \<noteq> CHR ''.''"
      by blast
    note hdM = number_text_head [OF dpM ne]
    have hM: "hd M \<noteq> CHR ''-''" "hd M \<noteq> CHR ''+''"
      using hdM(2) by (auto simp: digit_char_facts)
    show ?thesis
    proof (cases "exponent_start r2")
      case False
      have ss: "snd (strip_sign (sgn @ M)) = M"
        by (rule sg [OF hdM(1) hM])
      have nt: "is_number_text (sgn @ M)"
        using ne by (simp add: is_number_text_def ss dpM)
      have "CHR ''.'' \<in> set (sgn @ M) \<or> r2 = [] \<or> hd r2 \<noteq> CHR ''.''"
        using pt by auto
      with sh(3) False have "float_stops (sgn @ M) r2"
        by (cases r2) (auto simp: float_stops_def)
      with nt have "float_prefix (sgn @ M) r2"
        by (simp add: float_prefix_def)
      moreover have "str = w @ (sgn @ M) @ r2"
        using str S UM by simp
      ultimately show ?thesis using w by blast
    next
      case True
      then obtain c r where r2: "r2 = c # r" and c: "c = CHR ''e'' \<or> c = CHR ''E''"
        and ds: "takeWhile is_DecimalDigit (snd (strip_sign r)) \<noteq> []"
        by (cases r2) (auto simp: exponent_start_def)
      define D where "D = takeWhile is_DecimalDigit (snd (strip_sign r))"
      define rr where "rr = dropWhile is_DecimalDigit (snd (strip_sign r))"
      have D: "D \<noteq> []" "list_all is_DecimalDigit D"
        using ds unfolding D_def by (auto simp: list_all_iff dest: set_takeWhileD)
      have hD: "hd D \<noteq> CHR ''-''" "hd D \<noteq> CHR ''+''"
        using D by (cases D; auto simp: digit_char_facts)+
      have rD: "snd (strip_sign r) = D @ rr" unfolding D_def rr_def by simp
      have rrs: "rr = [] \<or> \<not> is_DecimalDigit (hd rr)"
        unfolding rr_def using hd_dropWhile [of is_DecimalDigit "snd (strip_sign r)"] by blast
      from strip_sign_split [of r] obtain esg where r: "r = esg @ snd (strip_sign r)"
        and esg: "\<And>L. L \<noteq> [] \<Longrightarrow> hd L \<noteq> CHR ''-'' \<Longrightarrow> hd L \<noteq> CHR ''+'' \<Longrightarrow> snd (strip_sign (esg @ L)) = L"
        by blast
      define E where "E = c # esg @ D"
      have sE: "snd (strip_sign (esg @ D)) = D" by (rule esg [OF D(1) hD])
      have eE: "exponent_text E"
        using c D by (simp add: E_def exponent_text_def sE)
      have hE: "E = [] \<or> \<not> is_DecimalDigit (hd E)"
        using c by (auto simp: E_def mark_char_facts)
      have pE: "CHR ''.'' \<in> set M \<or> [] \<noteq> ([]::string) \<or> E = [] \<or> hd E \<noteq> CHR ''.''"
        using c by (auto simp: E_def)
      have dpE: "decimal_parts (M @ E) = (ip, fp, E)"
        using decimal_parts_append [OF dpM hE pE] by simp
      have hME: "M @ E \<noteq> []" "hd (M @ E) \<noteq> CHR ''-''" "hd (M @ E) \<noteq> CHR ''+''"
        using hdM(1) hM by simp_all
      have ss: "snd (strip_sign (sgn @ M @ E)) = M @ E"
        by (rule sg [OF hME])
      have nt: "is_number_text (sgn @ M @ E)"
        using ne eE by (simp add: is_number_text_def ss dpE)
      have "has_exponent (sgn @ M @ E)"
        using c by (auto simp: has_exponent_def E_def)
      with rrs have "float_stops (sgn @ M @ E) rr"
        by (cases rr) (auto simp: float_stops_def)
      with nt have "float_prefix (sgn @ M @ E) rr"
        by (simp add: float_prefix_def)
      moreover have "r2 = E @ rr"
        unfolding r2 E_def using r rD by simp
      then have "str = w @ (sgn @ M @ E) @ rr"
        using str S UM by simp
      ultimately show ?thesis using w by blast
    qed
  qed
qed


lemma parseInt_reads_prefix:
  assumes "\<not> isNaN (parseInt str)"
  shows "\<exists>w lit rest. str = w @ lit @ rest \<and> list_all is_StrWhiteSpaceChar w
           \<and> int_prefix lit rest"
proof -
  define w where "w = takeWhile is_StrWhiteSpaceChar str"
  define S where "S = dropWhile is_StrWhiteSpaceChar str"
  define S1 where "S1 = snd (strip_sign S)"
  have str: "str = w @ S" unfolding w_def S_def by simp
  have w: "list_all is_StrWhiteSpaceChar w"
    unfolding w_def by (auto simp: list_all_iff dest: set_takeWhileD)
  from strip_sign_split [of S] obtain sgn where S: "S = sgn @ S1"
    and sg: "\<And>L. L \<noteq> [] \<Longrightarrow> hd L \<noteq> CHR ''-'' \<Longrightarrow> hd L \<noteq> CHR ''+'' \<Longrightarrow> snd (strip_sign (sgn @ L)) = L"
    unfolding S1_def by blast
  show ?thesis
  proof (cases "hex_prefixed S1")
    case True
    define Z where "Z = takeWhile (is_radix_digit 16) (drop 2 S1)"
    define rest where "rest = dropWhile (is_radix_digit 16) (drop 2 S1)"
    define P where "P = take 2 S1"
    have Z: "Z \<noteq> []"
      using assms True
      by (auto simp: parseInt_def Let_def isNaN_def S_def [symmetric] S1_def [symmetric]
            split_beta hex_prefixed_def Z_def)
    have Zd: "list_all (is_radix_digit 16) Z"
      unfolding Z_def by (auto simp: list_all_iff dest: set_takeWhileD)
    have rs: "rest = [] \<or> \<not> is_radix_digit 16 (hd rest)"
      unfolding rest_def using hd_dropWhile [of "is_radix_digit 16" "drop 2 S1"] by blast
    have P: "P = ''0x'' \<or> P = ''0X''"
      using True by (simp add: hex_prefixed_def P_def)
    have S1: "S1 = P @ Z @ rest"
      unfolding P_def Z_def rest_def by simp
    have hP: "P @ Z \<noteq> []" "hd (P @ Z) \<noteq> CHR ''-''" "hd (P @ Z) \<noteq> CHR ''+''"
      using P by auto
    have ss: "snd (strip_sign (sgn @ P @ Z)) = P @ Z"
      by (rule sg [OF hP])
    have hx: "hex_prefixed (P @ Z)" "drop 2 (P @ Z) = Z"
      using P by (auto simp: hex_prefixed_def)
    have "is_integer_text (sgn @ P @ Z)"
      unfolding is_integer_text_def Let_def ss hx(2) using hx(1) Z Zd by simp
    moreover have "int_stops (sgn @ P @ Z) rest"
      using rs by (cases rest) (simp_all add: int_stops_def ss hx)
    ultimately have "int_prefix (sgn @ P @ Z) rest"
      by (simp add: int_prefix_def)
    moreover have "str = w @ (sgn @ P @ Z) @ rest"
      using str S S1 by simp
    ultimately show ?thesis using w by blast
  next
    case False
    define Z where "Z = takeWhile is_DecimalDigit S1"
    define rest where "rest = dropWhile is_DecimalDigit S1"
    have Z: "Z \<noteq> []"
      using assms False
      by (auto simp: parseInt_def Let_def isNaN_def S_def [symmetric] S1_def [symmetric]
            split_beta hex_prefixed_def Z_def is_DecimalDigit_def [abs_def])
    have Zd: "list_all is_DecimalDigit Z"
      unfolding Z_def by (auto simp: list_all_iff dest: set_takeWhileD)
    have rs: "rest = [] \<or> \<not> is_DecimalDigit (hd rest)"
      unfolding rest_def using hd_dropWhile [of is_DecimalDigit S1] by blast
    have S1: "S1 = Z @ rest"
      unfolding Z_def rest_def by simp
    have hZ: "hd Z \<noteq> CHR ''-''" "hd Z \<noteq> CHR ''+''"
      using Z Zd by (cases Z; auto simp: digit_char_facts)+
    have ss: "snd (strip_sign (sgn @ Z)) = Z"
      by (rule sg [OF Z hZ])
    have nh: "\<not> hex_prefixed Z"
      by (rule hex_prefixed_digits [OF Zd])
    have "is_integer_text (sgn @ Z)"
      using Z Zd by (simp add: is_integer_text_def ss nh)
    moreover have "\<not> (Z = ''0'' \<and> rest \<noteq> [] \<and> (hd rest = CHR ''x'' \<or> hd rest = CHR ''X''))"
      using False unfolding S1 by (cases rest) (auto simp: hex_prefixed_def)
    with rs have "int_stops (sgn @ Z) rest"
      by (cases rest) (auto simp: int_stops_def ss nh)
    ultimately have "int_prefix (sgn @ Z) rest"
      by (simp add: int_prefix_def)
    moreover have "str = w @ (sgn @ Z) @ rest"
      using str S S1 by simp
    ultimately show ?thesis using w by blast
  qed
qed


lemma reads_number_prefix_iff:
  "reads_number_above_0 str =
     (\<exists>w lit rest. str = w @ lit @ rest \<and> list_all is_StrWhiteSpaceChar w
        \<and> float_prefix lit rest \<and> reads_number_above_0 lit)"
proof
  assume r: "reads_number_above_0 str"
  then have "\<not> isNaN (parseFloat str)"
    by (auto simp: reads_number_above_0_def isNaN_def split: js_number.splits)
  from parseFloat_reads_prefix [OF this] obtain w lit rest where
    s: "str = w @ lit @ rest" and w: "list_all is_StrWhiteSpaceChar w"
    and p: "float_prefix lit rest"
    by blast
  have "parseFloat str = parseFloat lit"
    unfolding s by (rule parseFloat_prefix [OF w p])
  with r have "reads_number_above_0 lit"
    by (simp add: reads_number_above_0_def)
  with s w p show "\<exists>w lit rest. str = w @ lit @ rest \<and> list_all is_StrWhiteSpaceChar w
        \<and> float_prefix lit rest \<and> reads_number_above_0 lit"
    by blast
next
  assume "\<exists>w lit rest. str = w @ lit @ rest \<and> list_all is_StrWhiteSpaceChar w
        \<and> float_prefix lit rest \<and> reads_number_above_0 lit"
  then obtain w lit rest where
    s: "str = w @ lit @ rest" and w: "list_all is_StrWhiteSpaceChar w"
    and p: "float_prefix lit rest" and r: "reads_number_above_0 lit"
    by blast
  have "parseFloat str = parseFloat lit"
    unfolding s by (rule parseFloat_prefix [OF w p])
  with r show "reads_number_above_0 str"
    by (simp add: reads_number_above_0_def)
qed

lemma reads_integer_prefix_iff:
  "reads_integer_at_least_0 str =
     (\<exists>w lit rest. str = w @ lit @ rest \<and> list_all is_StrWhiteSpaceChar w
        \<and> int_prefix lit rest \<and> reads_integer_at_least_0 lit)"
proof
  assume r: "reads_integer_at_least_0 str"
  then have "\<not> isNaN (parseInt str)"
    by (auto simp: reads_integer_at_least_0_def isNaN_def split: js_number.splits)
  from parseInt_reads_prefix [OF this] obtain w lit rest where
    s: "str = w @ lit @ rest" and w: "list_all is_StrWhiteSpaceChar w"
    and p: "int_prefix lit rest"
    by blast
  from p have p': "is_integer_text lit" "int_stops lit rest"
    by (simp_all add: int_prefix_def)
  have "parseInt str = parseInt lit"
    unfolding s by (rule parseInt_prefix [OF w p'])
  with r have "reads_integer_at_least_0 lit"
    by (simp add: reads_integer_at_least_0_def)
  with s w p show "\<exists>w lit rest. str = w @ lit @ rest \<and> list_all is_StrWhiteSpaceChar w
        \<and> int_prefix lit rest \<and> reads_integer_at_least_0 lit"
    by blast
next
  assume "\<exists>w lit rest. str = w @ lit @ rest \<and> list_all is_StrWhiteSpaceChar w
        \<and> int_prefix lit rest \<and> reads_integer_at_least_0 lit"
  then obtain w lit rest where
    s: "str = w @ lit @ rest" and w: "list_all is_StrWhiteSpaceChar w"
    and p: "int_prefix lit rest" and r: "reads_integer_at_least_0 lit"
    by blast
  from p have p': "is_integer_text lit" "int_stops lit rest"
    by (simp_all add: int_prefix_def)
  have "parseInt str = parseInt lit"
    unfolding s by (rule parseInt_prefix [OF w p'])
  with r show "reads_integer_at_least_0 str"
    by (simp add: reads_integer_at_least_0_def)
qed

subsection \<open>The form validation\<close>

lemma rejects_iff:
  "(isNaN x \<or> js_less_eq x (Finite 0)) =
     (\<not> (case x of NaN \<Rightarrow> False | Finite v \<Rightarrow> 0 < v | PosInfinity \<Rightarrow> True
          | NegInfinity \<Rightarrow> False))"
  "(isNaN x \<or> js_less x (Finite 0)) =
     (\<not> (case x of NaN \<Rightarrow> False | Finite v \<Rightarrow> 0 \<le> v | PosInfinity \<Rightarrow> True
          | NegInfinity \<Rightarrow> False))"
  by (cases x; auto simp: isNaN_def)+

lemmas validation_defs =
  rejected_form_def required_field_empty_def reads_number_above_0_def
  reads_integer_at_least_0_def

lemma rejected_is_stated:
  "rejected_form f \<Longrightarrow> stated_rejected_form f"
  by (auto simp: validation_defs stated_rejected_form_def is_number_above_0_def
        is_integer_at_least_0_def split: js_number.splits)

lemma handleSubmit_rejected:
  assumes "rejected_form (formData s)"
  shows "\<exists>msg. msg \<noteq> [] \<and> handleSubmit api s b = (s\<lparr>error := Some msg\<rparr>, b, [PreventDefault])"
  using assms by (auto simp: handleSubmit_def validation_defs Let_def rejects_iff)

lemma handleSubmit_accepted:
  assumes "\<not> rejected_form (formData s)"
  shows "handleSubmit api s b =
    (case createProduct api (to_productData (formData s)) b of
       (Inr u, b') \<Rightarrow>
         (s\<lparr>loading := False, error := None, success := Some ''Product created successfully''\<rparr>,
          b',
          [PreventDefault, Call_createProduct (to_productData (formData s)),
           SetTimeout (Navigate ''/admin/products'') 1500])
     | (Inl err, b') \<Rightarrow>
         (s\<lparr>loading := False, error := Some ''Failed to create product''\<rparr>, b',
          [PreventDefault, Call_createProduct (to_productData (formData s)),
           ConsoleError ''Error creating product:'' err]))"
  using assms
  by (auto simp: handleSubmit_def validation_defs Let_def rejects_iff
           split: prod.splits sum.splits)

lemma handleSubmit_accepted_calls:
  assumes "\<not> rejected_form (formData s)"
  shows "api_calls (snd (snd (handleSubmit api s b))) =
           [Call_createProduct (to_productData (formData s))]"
  by (cases "createProduct api (to_productData (formData s)) b")
     (simp add: handleSubmit_accepted [OF assms] api_calls_def is_api_call_def split: sum.splits)

lemma filled_form_simps:
  "name (formData (filled_form p q)) = ''Keychron K2''"
  "description (formData (filled_form p q)) = ''A compact wireless keyboard''"
  "brand (formData (filled_form p q)) = ''Keychron''"
  "price (formData (filled_form p q)) = p"
  "stockQuantity (formData (filled_form p q)) = q"
  by (simp_all add: filled_form_def AdminProductForm_initial_def)

lemma working_create: "createProduct working_api d b = (Inr (), b)"
  by (simp add: working_api_def)

subsection \<open>Rejected forms (C6)\<close>

text \<open>
  C6, as stated, fails: the price \<open>5abc\<close> is not a number and the stock quantity
  \<open>3.9\<close> is not an integer, yet a form with either of them is not rejected: the
  handler sets no error and makes the create call.
\<close>

theorem trailing_text_counterexample:
  "stated_rejected_form (formData (filled_form ''5abc'' ''12''))
   \<and> api_calls (snd (snd (handleSubmit working_api (filled_form ''5abc'' ''12'') []))) =
       [Call_createProduct (to_productData (formData (filled_form ''5abc'' ''12'')))]
   \<and> error (fst (handleSubmit working_api (filled_form ''5abc'' ''12'') [])) = None
   \<and> stated_rejected_form (formData (filled_form ''89.50'' ''3.9''))
   \<and> api_calls (snd (snd (handleSubmit working_api (filled_form ''89.50'' ''3.9'') []))) =
       [Call_createProduct (to_productData (formData (filled_form ''89.50'' ''3.9'')))]
   \<and> error (fst (handleSubmit working_api (filled_form ''89.50'' ''3.9'') [])) = None"
proof -
  have s1: "stated_rejected_form (formData (filled_form ''5abc'' ''12''))"
    by (simp add: stated_rejected_form_def is_number_above_0_def filled_form_simps
          text_defs parse_defs)
  have s2: "stated_rejected_form (formData (filled_form ''89.50'' ''3.9''))"
    by (simp add: stated_rejected_form_def is_integer_at_least_0_def filled_form_simps
          text_defs parse_defs)
  have a1: "\<not> rejected_form (formData (filled_form ''5abc'' ''12''))"
    by (simp add: validation_defs filled_form_simps parse_defs)
  have a2: "\<not> rejected_form (formData (filled_form ''89.50'' ''3.9''))"
    by (simp add: validation_defs filled_form_simps parse_defs)
  have e1: "error (fst (handleSubmit working_api (filled_form ''5abc'' ''12'') [])) = None"
    by (simp add: handleSubmit_accepted [OF a1] working_create)
  have e2: "error (fst (handleSubmit working_api (filled_form ''89.50'' ''3.9'') [])) = None"
    by (simp add: handleSubmit_accepted [OF a2] working_create)
  from s1 s2 e1 e2 handleSubmit_accepted_calls [OF a1, of working_api "[]"]
    handleSubmit_accepted_calls [OF a2, of working_api "[]"]
  show ?thesis by blast
qed

text \<open>
  C6, amended. A form is rejected when a required field is empty, or the price does not
  start (white space aside) with a decimal numeral that reads as a number greater
  than 0, or the stock quantity does not start with an integer numeral that reads as an
  integer that is at least 0. For a rejected form the submit handler sets \<open>error\<close> to
  a non-empty message, changes nothing else of the screen state, leaves the backend as
  it was and makes no API call; and a rejected form is always one that C6 as stated
  describes (it is the converse that fails). Every other form, also one with text after
  a valid numeral, is not rejected: exactly one create call is made.
\<close>

theorem validation_rejects_exactly:
  "(rejected_form (formData s) \<longrightarrow>
       truthy (error (fst (handleSubmit api s b)))
     \<and> fst (handleSubmit api s b) = s\<lparr>error := error (fst (handleSubmit api s b))\<rparr>
     \<and> fst (snd (handleSubmit api s b)) = b
     \<and> api_calls (snd (snd (handleSubmit api s b))) = []
     \<and> stated_rejected_form (formData s))
   \<and> (\<not> rejected_form (formData s) \<longrightarrow>
       api_calls (snd (snd (handleSubmit api s b))) =
         [Call_createProduct (to_productData (formData s))])
   \<and> rejected_form (formData s) =
       (required_field_empty (formData s)
        \<or> \<not> (\<exists>w lit rest. price (formData s) = w @ lit @ rest
                \<and> list_all is_StrWhiteSpaceChar w \<and> float_prefix lit rest
                \<and> reads_number_above_0 lit)
        \<or> \<not> (\<exists>w lit rest. stockQuantity (formData s) = w @ lit @ rest
                \<and> list_all is_StrWhiteSpaceChar w \<and> int_prefix lit rest
                \<and> reads_integer_at_least_0 lit))"
proof (intro conjI impI)
  assume r: "rejected_form (formData s)"
  from handleSubmit_rejected [OF r, of api b] obtain msg where
    "msg \<noteq> []" and "handleSubmit api s b = (s\<lparr>error := Some msg\<rparr>, b, [PreventDefault])"
    by blast
  then show "truthy (error (fst (handleSubmit api s b)))"
    and "fst (handleSubmit api s b) = s\<lparr>error := error (fst (handleSubmit api s b))\<rparr>"
    and "fst (snd (handleSubmit api s b)) = b"
    and "api_calls (snd (snd (handleSubmit api s b))) = []"
    by (simp_all add: truthy_def api_calls_def is_api_call_def)
  from r show "stated_rejected_form (formData s)"
    by (rule rejected_is_stated)
next
  assume "\<not> rejected_form (formData s)"
  then show "api_calls (snd (snd (handleSubmit api s b))) =
               [Call_createProduct (to_productData (formData s))]"
    by (rule handleSubmit_accepted_calls)
next
  show "rejected_form (formData s) =
       (required_field_empty (formData s)
        \<or> \<not> (\<exists>w lit rest. price (formData s) = w @ lit @ rest
                \<and> list_all is_StrWhiteSpaceChar w \<and> float_prefix lit rest
                \<and> reads_number_above_0 lit)
        \<or> \<not> (\<exists>w lit rest. stockQuantity (formData s) = w @ lit @ rest
                \<and> list_all is_StrWhiteSpaceChar w \<and> int_prefix lit rest
                \<and> reads_integer_at_least_0 lit))"
    unfolding rejected_form_def
    using reads_number_prefix_iff [of "price (formData s)"]
      reads_integer_prefix_iff [of "stockQuantity (formData s)"]
    by simp
qed

theorem validation_rejects_exactly_witness:
  "rejected_form (formData AdminProductForm_initial)
   \<and> api_calls (snd (snd (handleSubmit working_api AdminProductForm_initial []))) = []
   \<and> truthy (error (fst (handleSubmit working_api AdminProductForm_initial [])))
   \<and> rejected_form (formData (filled_form ''-5'' ''10''))
   \<and> api_calls (snd (snd (handleSubmit working_api (filled_form ''-5'' ''10'') []))) = []
   \<and> truthy (error (fst (handleSubmit working_api (filled_form ''-5'' ''10'') [])))
   \<and> rejected_form (formData (filled_form ''abc'' ''10''))
   \<and> api_calls (snd (snd (handleSubmit working_api (filled_form ''abc'' ''10'') []))) = []
   \<and> truthy (error (fst (handleSubmit working_api (filled_form ''abc'' ''10'') [])))
   \<and> rejected_form (formData (filled_form ''89.50'' ''-1''))
   \<and> api_calls (snd (snd (handleSubmit working_api (filled_form ''89.50'' ''-1'') []))) = []
   \<and> truthy (error (fst (handleSubmit working_api (filled_form ''89.50'' ''-1'') [])))
   \<and> \<not> rejected_form (formData (filled_form ''89.50'' ''12''))
   \<and> api_calls (snd (snd (handleSubmit working_api (filled_form ''89.50'' ''12'') []))) =
       [Call_createProduct (to_productData (formData (filled_form ''89.50'' ''12'')))]
   \<and> \<not> rejected_form (formData (filled_form ''5abc'' ''3.9''))"
proof -
  have 1: "rejected_form (formData AdminProductForm_initial)"
    by (simp add: validation_defs AdminProductForm_initial_def)
  have 2: "rejected_form (formData (filled_form ''-5'' ''10''))"
    by (simp add: validation_defs filled_form_simps parse_defs)
  have 3: "rejected_form (formData (filled_form ''abc'' ''10''))"
    by (simp add: validation_defs filled_form_simps parse_defs)
  have 4: "rejected_form (formData (filled_form ''89.50'' ''-1''))"
    by (simp add: validation_defs filled_form_simps parse_defs)
  have 5: "\<not> rejected_form (formData (filled_form ''89.50'' ''12''))"
    by (simp add: validation_defs filled_form_simps parse_defs)
  have 6: "\<exists>w lit rest. price (formData (filled_form ''5abc'' ''3.9'')) = w @ lit @ rest
             \<and> list_all is_StrWhiteSpaceChar w \<and> float_prefix lit rest
             \<and> reads_number_above_0 lit"
    by (rule exI [of _ "[]"], rule exI [of _ "''5''"], rule exI [of _ "''abc''"])
       (simp add: filled_form_simps text_defs parse_defs reads_number_above_0_def)
  have 7: "\<exists>w lit rest. stockQuantity (formData (filled_form ''5abc'' ''3.9'')) = w @ lit @ rest
             \<and> list_all is_StrWhiteSpaceChar w \<and> int_prefix lit rest
             \<and> reads_integer_at_least_0 lit"
    by (rule exI [of _ "[]"], rule exI [of _ "''3''"], rule exI [of _ "''.9''"])
       (simp add: filled_form_simps text_defs parse_defs reads_integer_at_least_0_def)
  have 8: "\<not> required_field_empty (formData (filled_form ''5abc'' ''3.9''))"
    by (simp add: required_field_empty_def filled_form_simps)
  from validation_rejects_exactly [of "filled_form ''5abc'' ''3.9''" working_api "[]"] 6 7 8
  have 9: "\<not> rejected_form (formData (filled_form ''5abc'' ''3.9''))"
    by blast
  from validation_rejects_exactly [of AdminProductForm_initial working_api "[]"]
       validation_rejects_exactly [of "filled_form ''-5'' ''10''" working_api "[]"]
       validation_rejects_exactly [of "filled_form ''abc'' ''10''" working_api "[]"]
       validation_rejects_exactly [of "filled_form ''89.50'' ''-1''" working_api "[]"]
       validation_rejects_exactly [of "filled_form ''89.50'' ''12''" working_api "[]"]
       1 2 3 4 5 9
  show ?thesis by blast
qed

subsection \<open>The currency format (C7)\<close>

text \<open>
  C7. \<open>formatPrice(1234.5)\<close> is \<open>$1,234.50\<close> and \<open>formatPrice(0)\<close> is \<open>$0.00\<close>.
\<close>

theorem formatPrice_examples:
  "formatPrice 1234.5 = ''$1,234.50'' \<and> formatPrice 0 = ''$0.00''"
proof -
  have cents: "\<lfloor>(246901::rat) / 2\<rfloor> = 123450"
    by (rule floor_unique) simp_all
  have 1: "formatPrice 1234.5 = ''$1,234.50''"
    by (simp add: formatPrice_def cents group3_def show_nat.simps digit_char_def Let_def)
  have 2: "formatPrice 0 = ''$0.00''"
    by (simp add: formatPrice_def group3_def show_nat.simps digit_char_def Let_def)
  from 1 2 show ?thesis by blast
qed

subsection \<open>A failed create call (C8)\<close>

text \<open>
  C8. When the form passes validation and the create call is rejected, the handler sets
  \<open>error\<close> to \<open>Failed to create product\<close>, which the error banner shows, ends
  with \<open>loading\<close> false and changes nothing else: every field of \<open>formData\<close> is
  as before, so the same form passes validation again.
\<close>

theorem create_failure_keeps_form:
  assumes "\<not> rejected_form (formData s)"
    and "createProduct api (to_productData (formData s)) b = (Inl err, b')"
  shows "handleSubmit api s b =
           (s\<lparr>loading := False, error := Some ''Failed to create product''\<rparr>, b',
            [PreventDefault, Call_createProduct (to_productData (formData s)),
             ConsoleError ''Error creating product:'' err])
       \<and> formData (fst (handleSubmit api s b)) = formData s
       \<and> \<not> rejected_form (formData (fst (handleSubmit api s b)))
       \<and> Alert ''error'' ''Failed to create product''
           \<in> set (AdminProductForm_alerts (fst (handleSubmit api s b)))"
  using assms
  by (simp add: handleSubmit_accepted AdminProductForm_alerts_def truthy_def or_else_def)

theorem create_failure_keeps_form_witness:
  "\<not> rejected_form (formData (filled_form ''89.50'' ''12''))
   \<and> handleSubmit failing_api (filled_form ''89.50'' ''12'') [] =
       ((filled_form ''89.50'' ''12'')\<lparr>loading := False, error := Some ''Failed to create product''\<rparr>,
        [],
        [PreventDefault,
         Call_createProduct (to_productData (formData (filled_form ''89.50'' ''12''))),
         ConsoleError ''Error creating product:'' (JsError ''Network Error'')])
   \<and> formData (fst (handleSubmit failing_api (filled_form ''89.50'' ''12'') [])) =
       formData (filled_form ''89.50'' ''12'')"
proof -
  have v: "\<not> rejected_form (formData (filled_form ''89.50'' ''12''))"
    by (simp add: validation_defs filled_form_simps parse_defs)
  have f: "createProduct failing_api (to_productData (formData (filled_form ''89.50'' ''12''))) []
             = (Inl (JsError ''Network Error''), [])"
    by (simp add: failing_api_def)
  from create_failure_keeps_form [OF v f] v show ?thesis by blast
qed

subsection \<open>Input with a valid numeric prefix (C9)\<close>

lemma reads_nonempty:
  "reads_number_above_0 str \<Longrightarrow> str \<noteq> []"
  "reads_integer_at_least_0 str \<Longrightarrow> str \<noteq> []"
  by (auto simp: reads_number_above_0_def reads_integer_at_least_0_def parse_defs)

text \<open>
  C9. Let the three required text fields be filled, let the price be white space, a
  decimal numeral (or a signed \<open>Infinity\<close>) and text that cannot make the numeral
  longer, and let the stock quantity be white space, an integer numeral and text that
  cannot make it longer: these are the texts with a numeric prefix, and every text that
  is read as a number is one (\<open>parseFloat_reads_prefix\<close>, \<open>parseInt_reads_prefix\<close>). When
  the price numeral alone reads as a number greater than 0 and the stock numeral alone
  as an integer that is at least 0, the form passes validation and exactly one create
  call is made. The product it carries is the one that the numerals alone would give:
  what follows them is dropped. Where a numeral is the decimal rendering of a number
  below \<open>2^53\<close>, the value carried is that number. So the price \<open>5abc\<close> is sent as 5
  and the stock quantity \<open>3.9\<close> as 3.
\<close>

theorem numeric_prefix_accepted:
  assumes "name (formData s) \<noteq> []" and "description (formData s) \<noteq> []"
    and "brand (formData s) \<noteq> []"
    and "price (formData s) = pw @ plit @ prest"
    and "list_all is_StrWhiteSpaceChar pw" and "float_prefix plit prest"
    and "reads_number_above_0 plit"
    and "stockQuantity (formData s) = sw @ slit @ srest"
    and "list_all is_StrWhiteSpaceChar sw" and "int_prefix slit srest"
    and "reads_integer_at_least_0 slit"
  shows "\<not> rejected_form (formData s)
       \<and> api_calls (snd (snd (handleSubmit api s b))) =
           [Call_createProduct (to_productData (formData s))]
       \<and> to_productData (formData s) =
           to_productData ((formData s)\<lparr>price := plit, stockQuantity := slit\<rparr>)
       \<and> (\<forall>n. plit = show_nat n \<and> n < 2 ^ 53 \<longrightarrow>
             price (to_productData (formData s)) = Finite (of_nat n))
       \<and> (\<forall>n. slit = show_nat n \<and> n < 2 ^ 53 \<longrightarrow>
             stockQuantity (to_productData (formData s)) = Finite (of_nat n))"
proof -
  have p: "parseFloat (price (formData s)) = parseFloat plit"
    unfolding assms(4) by (rule parseFloat_prefix [OF assms(5,6)])
  have q: "parseInt (stockQuantity (formData s)) = parseInt slit"
    unfolding assms(8) using assms(10) by (auto simp: int_prefix_def intro: parseInt_prefix [OF assms(9)])
  have ne: "price (formData s) \<noteq> []" "stockQuantity (formData s) \<noteq> []"
    using reads_nonempty(1) [OF assms(7)] reads_nonempty(2) [OF assms(11)]
    by (simp_all add: assms(4,8))
  have v: "\<not> rejected_form (formData s)"
    using assms(1,2,3,7,11) ne
    by (simp add: rejected_form_def required_field_empty_def reads_number_above_0_def
          reads_integer_at_least_0_def p q)
  have d: "to_productData (formData s) =
             to_productData ((formData s)\<lparr>price := plit, stockQuantity := slit\<rparr>)"
    by (simp add: to_productData_def p q)
  have pp: "\<forall>n. plit = show_nat n \<and> n < 2 ^ 53 \<longrightarrow>
              price (to_productData (formData s)) = Finite (of_nat n)"
    by (auto simp: to_productData_def p parseFloat_show_nat)
  have qq: "\<forall>n. slit = show_nat n \<and> n < 2 ^ 53 \<longrightarrow>
              stockQuantity (to_productData (formData s)) = Finite (of_nat n)"
    by (auto simp: to_productData_def q parseInt_show_nat)
  from v handleSubmit_accepted_calls [OF v, of api b] d pp qq show ?thesis by blast
qed

theorem numeric_prefix_accepted_witness:
  "\<not> rejected_form (formData (filled_form ''5abc'' ''3.9''))
   \<and> api_calls (snd (snd (handleSubmit working_api (filled_form ''5abc'' ''3.9'') []))) =
       [Call_createProduct (to_productData (formData (filled_form ''5abc'' ''3.9'')))]
   \<and> price (to_productData (formData (filled_form ''5abc'' ''3.9''))) = Finite 5
   \<and> stockQuantity (to_productData (formData (filled_form ''5abc'' ''3.9''))) = Finite 3
   \<and> \<not> rejected_form (formData (filled_form '' 12.50 USD'' ''0042 pcs''))
   \<and> price (to_productData (formData (filled_form '' 12.50 USD'' ''0042 pcs''))) = Finite (25 / 2)
   \<and> stockQuantity (to_productData (formData (filled_form '' 12.50 USD'' ''0042 pcs''))) = Finite 42"
proof -
  have r: "name (formData (filled_form x y)) \<noteq> []"
    "description (formData (filled_form x y)) \<noteq> []"
    "brand (formData (filled_form x y)) \<noteq> []" for x y
    by (simp_all add: filled_form_simps)
  have h1: "price (formData (filled_form ''5abc'' ''3.9'')) = [] @ ''5'' @ ''abc''"
    "list_all is_StrWhiteSpaceChar []" "float_prefix ''5'' ''abc''"
    "reads_number_above_0 ''5''"
    "stockQuantity (formData (filled_form ''5abc'' ''3.9'')) = [] @ ''3'' @ ''.9''"
    "list_all is_StrWhiteSpaceChar []" "int_prefix ''3'' ''.9''"
    "reads_integer_at_least_0 ''3''"
    by (simp_all add: filled_form_simps text_defs parse_defs reads_number_above_0_def
          reads_integer_at_least_0_def)
  have h2: "price (formData (filled_form '' 12.50 USD'' ''0042 pcs'')) = '' '' @ ''12.50'' @ '' USD''"
    "list_all is_StrWhiteSpaceChar '' ''" "float_prefix ''12.50'' '' USD''"
    "reads_number_above_0 ''12.50''"
    "stockQuantity (formData (filled_form '' 12.50 USD'' ''0042 pcs'')) = [] @ ''0042'' @ '' pcs''"
    "list_all is_StrWhiteSpaceChar []" "int_prefix ''0042'' '' pcs''"
    "reads_integer_at_least_0 ''0042''"
    by (simp_all add: filled_form_simps text_defs parse_defs reads_number_above_0_def
          reads_integer_at_least_0_def)
  have n: "''5'' = show_nat 5 \<and> (5::nat) < 2 ^ 53" "''3'' = show_nat 3 \<and> (3::nat) < 2 ^ 53"
    by (simp_all add: show_nat.simps digit_char_def)
  note w1 = numeric_prefix_accepted [OF r h1, of working_api "[]"]
  note w2 = numeric_prefix_accepted [OF r h2, of working_api "[]"]
  have v2: "price (to_productData ((formData (filled_form '' 12.50 USD'' ''0042 pcs''))
              \<lparr>price := ''12.50'', stockQuantity := ''0042''\<rparr>)) = Finite (25 / 2)"
    "stockQuantity (to_productData ((formData (filled_form '' 12.50 USD'' ''0042 pcs''))
              \<lparr>price := ''12.50'', stockQuantity := ''0042''\<rparr>)) = Finite 42"
    by (simp_all add: to_productData_def parse_defs)
  from w1 n have a: "price (to_productData (formData (filled_form ''5abc'' ''3.9''))) = Finite 5"
    "stockQuantity (to_productData (formData (filled_form ''5abc'' ''3.9''))) = Finite 3"
    by (metis of_nat_numeral)+
  from w2 v2 have b:
    "price (to_productData (formData (filled_form '' 12.50 USD'' ''0042 pcs''))) = Finite (25 / 2)"
    "stockQuantity (to_productData (formData (filled_form '' 12.50 USD'' ''0042 pcs''))) = Finite 42"
    by simp_all
  from w1 w2 a b show ?thesis by blast
qed

subsection \<open>Confirming with no order selected (C10)\<close>

text \<open>
  C10. With no order selected, the confirm handler returns at once: the screen state
  and the backend are as before and nothing is called.
\<close>

theorem status_submit_without_order:
  "selectedOrder s = None \<Longrightarrow> handleStatusSubmit api s b = (s, b, [])"
  by (simp add: handleStatusSubmit_def)

theorem status_submit_without_order_witness:
  "selectedOrder AdminOrders_initial = None
   \<and> handleStatusSubmit working_api AdminOrders_initial [sample_order] =
       (AdminOrders_initial, [sample_order], [])"
proof -
  have h: "selectedOrder AdminOrders_initial = None"
    by (simp add: AdminOrders_initial_def)
  from status_submit_without_order [OF h, of working_api "[sample_order]"] h
  show ?thesis by simp
qed

end
